theory Spec2Isabelle
  imports Complex_Main "HOL-Library.AList"
begin

section \<open>Values\<close>

text \<open>
  A Python number as \<^verbatim>\<open>response.json()\<close> delivers it: an \<^verbatim>\<open>int\<close> of any size, or a
  \<^verbatim>\<open>float\<close>, which is a finite double, an infinity (\<open>PInf True\<close> is the positive one) or
  NaN; the parser accepts the literals \<^verbatim>\<open>NaN\<close> and \<^verbatim>\<open>Infinity\<close>. \<open>PFloat q\<close> is the
  double whose value is \<open>q\<close>; the two zeros of the doubles, which are equal and both
  false, are the one value \<open>PFloat 0\<close>. The two kinds are kept apart, since \<^verbatim>\<open>1\<close> and
  \<^verbatim>\<open>1.0\<close> add differently.
\<close>

datatype pynum = PInt int | PFloat rat | PInf bool | PNaN

text \<open>
  The values that \<^verbatim>\<open>response.json()\<close> hands to the program. \<open>JNull\<close> is Python's
  \<^verbatim>\<open>None\<close>. An object is the list of its items in insertion order, read with \<open>map_of\<close>.
  A string is the list of the bytes of its UTF-8 encoding.
\<close>

datatype json =
    JNull
  | JBool bool
  | JNum pynum
  | JStr string
  | JArr "json list"
  | JObj "(string \<times> json) list"

type_synonym pydict = "(string \<times> json) list"

text \<open>
  The characters of a string: each is the byte sequence that encodes one code point in
  UTF-8, whose length the lead byte gives.
\<close>

definition utf8_len :: "char \<Rightarrow> nat" where
  "utf8_len c =
     (if (of_char c :: nat) < 0xC0 then 1
      else if (of_char c :: nat) < 0xE0 then 2
      else if (of_char c :: nat) < 0xF0 then 3
      else 4)"

fun chars :: "string \<Rightarrow> string list" where
  "chars [] = []"
| "chars (c # cs) = (c # take (utf8_len c - 1) cs) # chars (drop (utf8_len c - 1) cs)"

text \<open>Python's truth value of an object, as \<^verbatim>\<open>if not x\<close> tests it.\<close>

fun nonzero :: "pynum \<Rightarrow> bool" where
  "nonzero (PInt i) = (i \<noteq> 0)"
| "nonzero (PFloat q) = (q \<noteq> 0)"
| "nonzero (PInf b) = True"
| "nonzero PNaN = True"

fun truthy :: "json \<Rightarrow> bool" where
  "truthy JNull = False"
| "truthy (JBool b) = b"
| "truthy (JNum n) = nonzero n"
| "truthy (JStr s) = (s \<noteq> [])"
| "truthy (JArr xs) = (xs \<noteq> [])"
| "truthy (JObj kvs) = (kvs \<noteq> [])"

text \<open>\<^verbatim>\<open>d.get(k)\<close> on a dict: the value, or \<^verbatim>\<open>None\<close> for a missing key.\<close>

definition dict_get :: "pydict \<Rightarrow> string \<Rightarrow> json" where
  "dict_get d k = (case map_of d k of None \<Rightarrow> JNull | Some v \<Rightarrow> v)"

text \<open>
  The value of an object as a number, where it is one (\<^verbatim>\<open>bool\<close> is a subclass of
  \<^verbatim>\<open>int\<close>, and \<^verbatim>\<open>True\<close> equals 1). On every other value \<^verbatim>\<open>min\<close>, \<^verbatim>\<open>max\<close> or \<^verbatim>\<open>sum\<close>
  raise \<^verbatim>\<open>TypeError\<close>.
\<close>

fun num_of :: "json \<Rightarrow> pynum option" where
  "num_of (JNum n) = Some n"
| "num_of (JBool b) = Some (PInt (if b then 1 else 0))"
| "num_of _ = None"

section \<open>Exceptions and the Python runtime\<close>

datatype exn =
    NameError string
  | AttributeError
  | TypeError
  | KeyError
  | IndexError
  | ValueError
  | OverflowError
  | ZeroDivisionError
  | FileNotFoundError
  | OSError

text \<open>
  Comparison of numbers is by value, exact also between an \<^verbatim>\<open>int\<close> and a \<^verbatim>\<open>float\<close>;
  every comparison with NaN is false. \<open>rank\<close> places a number that is not NaN on the
  extended line.
\<close>

fun rank :: "pynum \<Rightarrow> (int \<times> rat) option" where
  "rank (PInt i) = Some (0, of_int i)"
| "rank (PFloat q) = Some (0, q)"
| "rank (PInf b) = Some (if b then 1 else -1, 0)"
| "rank PNaN = None"

definition py_lt :: "pynum \<Rightarrow> pynum \<Rightarrow> bool" where
  "py_lt x y =
     (case (rank x, rank y) of
        (Some (a, p), Some (b, q)) \<Rightarrow> a < b \<or> (a = b \<and> p < q)
      | _ \<Rightarrow> False)"

definition py_le :: "pynum \<Rightarrow> pynum \<Rightarrow> bool" where
  "py_le x y =
     (case (rank x, rank y) of
        (Some (a, p), Some (b, q)) \<Rightarrow> a < b \<or> (a = b \<and> p \<le> q)
      | _ \<Rightarrow> False)"

text \<open>
  Addition and division of numbers round, overflow and, for \<^verbatim>\<open>sum\<close>, differ between
  versions of the interpreter. They are taken from the runtime: \<open>sum_builtin rt xs\<close> is
  what \<^verbatim>\<open>sum(xs)\<close> gives on a list of numbers and \<open>true_divide rt x n\<close> what \<^verbatim>\<open>x / n\<close>
  gives for a length \<open>n\<close>; either may raise, as \<^verbatim>\<open>OverflowError\<close> on a huge \<^verbatim>\<open>int\<close>.
\<close>

record runtime =
  sum_builtin :: "pynum list \<Rightarrow> exn + pynum"
  true_divide :: "pynum \<Rightarrow> nat \<Rightarrow> exn + pynum"

section \<open>Statistics Aggregator\<close>

text \<open>
  The builtins \<^verbatim>\<open>min\<close> and \<^verbatim>\<open>max\<close> on a list: one pass from the left that keeps the
  element so far unless the next one compares smaller (greater). On the empty list they
  raise \<^verbatim>\<open>ValueError\<close>.
\<close>

fun py_min :: "pynum list \<Rightarrow> exn + pynum" where
  "py_min [] = Inl ValueError"
| "py_min (x # xs) = Inr (fold (\<lambda>item m. if py_lt item m then item else m) xs x)"

fun py_max :: "pynum list \<Rightarrow> exn + pynum" where
  "py_max [] = Inl ValueError"
| "py_max (x # xs) = Inr (fold (\<lambda>item m. if py_lt m item then item else m) xs x)"

record stats =
  stat_min :: "pynum option"
  stat_max :: "pynum option"
  stat_average :: "pynum option"

definition compute_weather_stats :: "runtime \<Rightarrow> pynum list \<Rightarrow> exn + stats" where
  "compute_weather_stats rt temperatures =
     (if temperatures = [] then
        Inr \<lparr>stat_min = None, stat_max = None, stat_average = None\<rparr>
      else
        case py_min temperatures of
          Inl e \<Rightarrow> Inl e
        | Inr min_temp \<Rightarrow>
        case py_max temperatures of
          Inl e \<Rightarrow> Inl e
        | Inr max_temp \<Rightarrow>
        case sum_builtin rt temperatures of
          Inl e \<Rightarrow> Inl e
        | Inr temp_sum \<Rightarrow>
        case true_divide rt temp_sum (length temperatures) of
          Inl e \<Rightarrow> Inl e
        | Inr avg_temp \<Rightarrow>
            Inr \<lparr>stat_min = Some min_temp, stat_max = Some max_temp,
                 stat_average = Some avg_temp\<rparr>)"

section \<open>The world: network, files, console, clock\<close>

text \<open>
  The program talks to the network, the file system, the console and the clock. The
  environment says what the outside answers: \<open>net env url params i\<close> is the outcome of
  the \<open>i\<close>-th request of the run, if it goes to \<open>url\<close> with \<open>params\<close>;
  \<open>read_file\<close> gives the decoded lines of a file, or says that it is missing or that
  opening or decoding it fails. What the program does is appended to a log, in the order
  it happens.
\<close>

datatype request_exception = ConnectionError | Timeout | HTTPError nat | InvalidJSON

datatype http_result = Body json | Failed request_exception

text \<open>
  A key of the result dict. A name taken from a response may be a number as well as a
  string; numbers are keys by value (\<^verbatim>\<open>True\<close>, \<^verbatim>\<open>1\<close> and \<^verbatim>\<open>1.0\<close> are one key), and
  every NaN of a response is the parser's one NaN object. Lists and dicts are unhashable.
\<close>

datatype pykey = KStr string | KNum rat | KInf bool | KNaN

fun hashable :: "json \<Rightarrow> exn + pykey" where
  "hashable (JStr s) = Inr (KStr s)"
| "hashable (JNum (PInt i)) = Inr (KNum (of_int i))"
| "hashable (JNum (PFloat q)) = Inr (KNum q)"
| "hashable (JNum (PInf b)) = Inr (KInf b)"
| "hashable (JNum PNaN) = Inr KNaN"
| "hashable (JBool b) = Inr (KNum (if b then 1 else 0))"
| "hashable _ = Inl TypeError"

record reading =
  temperature :: json
  windspeed :: json
  winddirection :: json
  weathercode :: json
  timestamp :: json

record city_entry =
  entry_temperature :: json
  entry_windspeed :: json
  entry_winddirection :: json
  entry_timestamp :: json

datatype entry = City city_entry | Summary stats

type_synonym result = "(pykey \<times> entry) list"

text \<open>
  A printed line is the list of the pieces of its f-string: literal text, \<^verbatim>\<open>str\<close> of a
  value, a value under \<^verbatim>\<open>:.2f\<close>, a key under \<^verbatim>\<open>:20\<close>, an exception. The decimal
  rendering of numbers is not modelled.
\<close>

datatype piece =
    Text string
  | Shown json
  | Fixed2 json
  | Padded20 pykey
  | RequestExc request_exception
  | Exc exn

datatype event =
    Get string pydict
  | Sleep rat
  | Stdout "piece list"
  | Stderr "piece list"
  | Write string result

datatype file_result = Missing | Unreadable | Lines "string list"

record env =
  net :: "string \<Rightarrow> pydict \<Rightarrow> nat \<Rightarrow> http_result"
  read_file :: "string \<Rightarrow> file_result"
  writable :: "string \<Rightarrow> bool"
  python :: runtime

record world =
  served :: nat
  log :: "event list"

type_synonym 'a prog = "world \<Rightarrow> (exn + 'a) \<times> world"

definition ret :: "'a \<Rightarrow> 'a prog" where
  "ret x s = (Inr x, s)"

definition raise :: "exn \<Rightarrow> 'a prog" where
  "raise e s = (Inl e, s)"

definition lift :: "exn + 'a \<Rightarrow> 'a prog" where
  "lift r s = (r, s)"

definition andthen :: "'a prog \<Rightarrow> ('a \<Rightarrow> 'b prog) \<Rightarrow> 'b prog" where
  "andthen m f s = (case m s of (Inl e, s') \<Rightarrow> (Inl e, s') | (Inr x, s') \<Rightarrow> f x s')"

definition emit :: "event \<Rightarrow> unit prog" where
  "emit e s = (Inr (), s\<lparr>log := log s @ [e]\<rparr>)"

definition py_print :: "piece list \<Rightarrow> unit prog" where
  "py_print ps = emit (Stdout ps)"

definition eprint :: "piece list \<Rightarrow> unit prog" where
  "eprint ps = emit (Stderr ps)"

definition sleep :: "rat \<Rightarrow> unit prog" where
  "sleep d = emit (Sleep d)"

text \<open>
  The body of the \<^verbatim>\<open>try\<close> in the Fetcher: \<^verbatim>\<open>requests.get\<close>, \<^verbatim>\<open>raise_for_status\<close> and
  \<^verbatim>\<open>response.json()\<close>. It yields the parsed body or raises a \<^verbatim>\<open>RequestException\<close>.
\<close>

definition http_get :: "env \<Rightarrow> string \<Rightarrow> pydict \<Rightarrow> http_result prog" where
  "http_get env url params s =
     (Inr (net env url params (served s)),
      s\<lparr>served := Suc (served s), log := log s @ [Get url params]\<rparr>)"

text \<open>
  \<^verbatim>\<open>x.get(k)\<close> and \<^verbatim>\<open>x[0]\<close> on an arbitrary value; \<^verbatim>\<open>x[0]\<close> on a string is its first
  character.
\<close>

fun py_get :: "json \<Rightarrow> string \<Rightarrow> exn + json" where
  "py_get (JObj d) k = Inr (dict_get d k)"
| "py_get _ k = Inl AttributeError"

fun py_item0 :: "json \<Rightarrow> exn + json" where
  "py_item0 (JArr []) = Inl IndexError"
| "py_item0 (JArr (x # xs)) = Inr x"
| "py_item0 (JStr []) = Inl IndexError"
| "py_item0 (JStr (c # cs)) = Inr (JStr (hd (chars (c # cs))))"
| "py_item0 (JObj d) = Inl KeyError"
| "py_item0 _ = Inl TypeError"

section \<open>Constants\<close>

definition GEOCODE_API_URL :: string where
  "GEOCODE_API_URL = ''https://geocoding-api.open-meteo.com/v1/search''"

definition WEATHER_API_URL :: string where
  "WEATHER_API_URL = ''https://api.open-meteo.com/v1/forecast''"

definition DEFAULT_JSON_OUTPUT :: string where
  "DEFAULT_JSON_OUTPUT = ''weather_output.json''"

definition DEFAULT_CSV_OUTPUT :: string where
  "DEFAULT_CSV_OUTPUT = ''weather_output.csv''"

definition RETRY_ATTEMPTS :: int where
  "RETRY_ATTEMPTS = 3"

definition RETRY_DELAY :: rat where
  "RETRY_DELAY = 3 / 2"

section \<open>Retrying HTTP Fetcher\<close>

text \<open>
  The loop \<^verbatim>\<open>for attempt in range(1, retries + 1)\<close>, over the attempts still to make.
  Falling out of the loop returns \<^verbatim>\<open>None\<close>.
\<close>

fun attempts :: "env \<Rightarrow> string \<Rightarrow> pydict \<Rightarrow> int \<Rightarrow> int list \<Rightarrow> json prog" where
  "attempts env url params retries [] = ret JNull"
| "attempts env url params retries (attempt # rest) =
     andthen (http_get env url params) (\<lambda>r.
       case r of
         Body b \<Rightarrow> ret b
       | Failed err \<Rightarrow>
           if attempt < retries then
             andthen (eprint [Text ''[info] Request failed (attempt '',
                              Shown (JNum (PInt attempt)), Text ''): '',
                              RequestExc err, Text ''. Retrying...'']) (\<lambda>_.
             andthen (sleep RETRY_DELAY) (\<lambda>_.
             attempts env url params retries rest))
           else
             andthen (eprint [Text ''[error] Failed after '',
                              Shown (JNum (PInt attempt)), Text '' retries: '',
                              RequestExc err]) (\<lambda>_.
             ret JNull))"

definition fetch_data_with_retries :: "env \<Rightarrow> string \<Rightarrow> pydict \<Rightarrow> int \<Rightarrow> json prog" where
  "fetch_data_with_retries env url params retries =
     attempts env url params retries [1..retries]"

section \<open>Geocoder\<close>

definition get_city_coordinates :: "env \<Rightarrow> string \<Rightarrow> (json \<times> json \<times> json) option prog" where
  "get_city_coordinates env city_name =
     andthen (fetch_data_with_retries env GEOCODE_API_URL
                [(''name'', JStr city_name), (''count'', JNum (PInt 1))] RETRY_ATTEMPTS)
       (\<lambda>response_data.
     if \<not> truthy response_data then ret None
     else
     andthen (lift (py_get response_data ''results'')) (\<lambda>results.
     if \<not> truthy results then
       andthen (eprint [Text (''[warning] geocoding data not found for '' @ [CHR 0x27]),
                        Text city_name, Text ([CHR 0x27] @ ''.'')]) (\<lambda>_.
       ret None)
     else
     andthen (lift (py_item0 results)) (\<lambda>city_info.
     andthen (lift (py_get city_info ''latitude'')) (\<lambda>lat.
     andthen (lift (py_get city_info ''longitude'')) (\<lambda>lon.
     andthen (lift (py_get city_info ''name'')) (\<lambda>name.
     let city_name_from_api = (if truthy name then name else JStr city_name) in
     if lat = JNull \<or> lon = JNull then
       andthen (eprint [Text (''[warning] Error in geocoding data for city '' @ [CHR 0x27]),
                        Text city_name, Text [CHR 0x27]]) (\<lambda>_.
       ret None)
     else ret (Some (lat, lon, city_name_from_api))))))))"

section \<open>Weather Lookup\<close>

definition get_current_weather_for_coordinates :: "env \<Rightarrow> json \<Rightarrow> json \<Rightarrow> reading option prog" where
  "get_current_weather_for_coordinates env lat lon =
     andthen (fetch_data_with_retries env WEATHER_API_URL
                [(''latitude'', lat), (''longitude'', lon), (''current_weather'', JBool True)]
                RETRY_ATTEMPTS)
       (\<lambda>weather_data.
     if \<not> truthy weather_data then ret None
     else
     andthen (lift (py_get weather_data ''current_weather'')) (\<lambda>current_weather.
     if \<not> truthy current_weather then
       andthen (eprint [Text ''[warning] No current weather data found for coordinates '',
                        Shown lat, Text '', '', Shown lon, Text ''.'']) (\<lambda>_.
       ret None)
     else
     andthen (lift (py_get current_weather ''temperature'')) (\<lambda>t.
     andthen (lift (py_get current_weather ''windspeed'')) (\<lambda>ws.
     andthen (lift (py_get current_weather ''winddirection'')) (\<lambda>wd.
     andthen (lift (py_get current_weather ''weathercode'')) (\<lambda>wc.
     andthen (lift (py_get current_weather ''time'')) (\<lambda>tm.
     ret (Some \<lparr>temperature = t, windspeed = ws, winddirection = wd,
                weathercode = wc, timestamp = tm\<rparr>))))))))"

section \<open>Output Writer and Summary Printer\<close>

text \<open>
  \<^verbatim>\<open>open\<close> and \<^verbatim>\<open>json.dump\<close> either write the whole mapping or fail; every failure is
  caught and reported.
\<close>

definition save_to_json :: "env \<Rightarrow> string \<Rightarrow> result \<Rightarrow> unit prog" where
  "save_to_json env file_path data =
     (if writable env file_path then
        andthen (emit (Write file_path data)) (\<lambda>_.
        py_print [Text ''[info] Data successfully saved to '', Text file_path])
      else
        eprint [Text ''[error] Failed to save data to '', Text file_path])"

text \<open>The dict that an entry of the result is, for \<^verbatim>\<open>.get\<close>.\<close>

definition opt_num :: "pynum option \<Rightarrow> json" where
  "opt_num x = (case x of None \<Rightarrow> JNull | Some n \<Rightarrow> JNum n)"

fun entry_dict :: "entry \<Rightarrow> pydict" where
  "entry_dict (City c) =
     [(''temperature'', entry_temperature c), (''windspeed'', entry_windspeed c),
      (''winddirection'', entry_winddirection c), (''timestamp'', entry_timestamp c)]"
| "entry_dict (Summary st) =
     [(''min'', opt_num (stat_min st)), (''max'', opt_num (stat_max st)),
      (''average'', opt_num (stat_average st))]"

definition degC :: string where
  "degC = [CHR 0xC2, CHR 0xB0, CHR ''C'']"

text \<open>The loop over \<^verbatim>\<open>data.items()\<close>, which skips the key \<^verbatim>\<open>"stats"\<close>.\<close>

fun print_cities :: "result \<Rightarrow> unit prog" where
  "print_cities [] = ret ()"
| "print_cities ((city, weather_info) # items) =
     (if city = KStr ''stats'' then print_cities items
      else
        andthen (py_print [Padded20 city, Text ''  Temp: '',
                           Shown (dict_get (entry_dict weather_info) ''temperature''),
                           Text (degC @ ''  Wind Speed: ''),
                           Shown (dict_get (entry_dict weather_info) ''windspeed''),
                           Text '' km/h  Time: '',
                           Shown (dict_get (entry_dict weather_info) ''timestamp'')]) (\<lambda>_.
        print_cities items))"

definition avg_line :: "json \<Rightarrow> piece list" where
  "avg_line average =
     (if truthy average then [Text ''  Avg Temp: '', Fixed2 average, Text degC]
      else [Text ''  Avg Temp: n/a''])"

definition print_weather_summary :: "result \<Rightarrow> unit prog" where
  "print_weather_summary data =
     (if data = [] then py_print [Text ''[info] No data to display.'']
      else
        andthen (py_print [Text (CHR 0x0A # ''--- Weather Summary ---'')]) (\<lambda>_.
        andthen (print_cities data) (\<lambda>_.
        andthen (case map_of data (KStr ''stats'') of
                   None \<Rightarrow> ret ()
                 | Some stats \<Rightarrow>
                     if entry_dict stats = [] then ret ()
                     else
                       andthen (py_print [Text (CHR 0x0A # ''Statistics:'')]) (\<lambda>_.
                       andthen (py_print [Text ''  Max Temp: '',
                                  Shown (dict_get (entry_dict stats) ''max''), Text degC]) (\<lambda>_.
                       andthen (py_print [Text ''  Min Temp: '',
                                  Shown (dict_get (entry_dict stats) ''min''), Text degC]) (\<lambda>_.
                       py_print (avg_line (dict_get (entry_dict stats) ''average'')))))) (\<lambda>_.
        py_print [Text (''------------------------'' @ [CHR 0x0A])]))))"

section \<open>Pipeline Orchestrator\<close>

text \<open>
  The first half of the loop body, up to the second \<^verbatim>\<open>continue\<close>: the city is resolved and
  its weather fetched. \<open>None\<close> stands for \<^verbatim>\<open>continue\<close>.
\<close>

definition lookup_city :: "env \<Rightarrow> string \<Rightarrow> (json \<times> reading) option prog" where
  "lookup_city env city =
     andthen (py_print [Text ''[info] Fetching data for '', Text city, Text ''...'']) (\<lambda>_.
     andthen (get_city_coordinates env city) (\<lambda>coordinates.
     case coordinates of
       None \<Rightarrow>
         andthen (py_print [Text ''[warn] Skipping '', Text city,
                            Text '' due to geocoding issues.'']) (\<lambda>_.
         ret None)
     | Some (lat, lon, city_name) \<Rightarrow>
         andthen (get_current_weather_for_coordinates env lat lon) (\<lambda>weather.
         case weather of
           None \<Rightarrow>
             andthen (py_print [Text ''[warn] No weather data available for '', Text city,
                                Text ''.'']) (\<lambda>_.
             ret None)
         | Some w \<Rightarrow> ret (Some (city_name, w)))))"

text \<open>
  The second half of the loop body: the reading is stored under the resolved name, its
  temperature is collected, and the loop pauses.
\<close>

definition record_city ::
  "json \<Rightarrow> reading \<Rightarrow> result \<times> json list \<Rightarrow> (result \<times> json list) prog" where
  "record_city city_name weather acc =
     andthen (lift (hashable city_name)) (\<lambda>key.
     let weather_results = AList.update key
           (City \<lparr>entry_temperature = temperature weather,
                  entry_windspeed = windspeed weather,
                  entry_winddirection = winddirection weather,
                  entry_timestamp = timestamp weather\<rparr>) (fst acc);
         temperatures = (if temperature weather \<noteq> JNull
                         then snd acc @ [temperature weather] else snd acc)
     in andthen (sleep (1 / 2)) (\<lambda>_.
        ret (weather_results, temperatures)))"

fun cities_loop :: "env \<Rightarrow> string list \<Rightarrow> result \<times> json list \<Rightarrow> (result \<times> json list) prog" where
  "cities_loop env [] acc = ret acc"
| "cities_loop env (city # rest) acc =
     andthen (lookup_city env city) (\<lambda>found.
     case found of
       None \<Rightarrow> cities_loop env rest acc
     | Some (city_name, weather) \<Rightarrow>
         andthen (record_city city_name weather acc) (\<lambda>acc'.
         cities_loop env rest acc'))"

text \<open>
  The call \<^verbatim>\<open>compute_weather_stats(temperatures)\<close> on the collected values: on a value
  that is not a number \<^verbatim>\<open>min\<close>, \<^verbatim>\<open>max\<close> or \<^verbatim>\<open>sum\<close> raise \<^verbatim>\<open>TypeError\<close>; on numbers
  the call raises what the arithmetic raises.
\<close>

definition call_compute_weather_stats :: "env \<Rightarrow> json list \<Rightarrow> stats prog" where
  "call_compute_weather_stats env temperatures =
     (case those (map num_of temperatures) of
        None \<Rightarrow> raise TypeError
      | Some ts \<Rightarrow> lift (compute_weather_stats (python env) ts))"

text \<open>\<^verbatim>\<open>output_file or default\<close>.\<close>

definition or_default :: "string option \<Rightarrow> string \<Rightarrow> string" where
  "or_default output_file d =
     (case output_file of None \<Rightarrow> d | Some f \<Rightarrow> if f = [] then d else f)"

text \<open>
  The module defines no \<^verbatim>\<open>save_to_csv\<close>: evaluating the name raises \<^verbatim>\<open>NameError\<close>.
\<close>

definition process_weather_for_cities ::
  "env \<Rightarrow> string list \<Rightarrow> string \<Rightarrow> string option \<Rightarrow> result prog" where
  "process_weather_for_cities env cities output_format output_file =
     andthen (cities_loop env cities ([], [])) (\<lambda>acc.
     andthen (call_compute_weather_stats env (snd acc)) (\<lambda>stats.
     let weather_results = AList.update (KStr ''stats'') (Summary stats) (fst acc) in
     andthen (if output_format = ''json''
              then save_to_json env (or_default output_file DEFAULT_JSON_OUTPUT) weather_results
              else raise (NameError ''save_to_csv'')) (\<lambda>_.
     andthen (print_weather_summary weather_results) (\<lambda>_.
     ret weather_results))))"

section \<open>Entry point\<close>

text \<open>
  The characters that \<^verbatim>\<open>str.strip()\<close> removes, which are those of \<^verbatim>\<open>str.isspace()\<close>:
  U+0009 to U+000D, U+001C to U+0020, U+0085, U+00A0, U+1680, U+2000 to U+200A, U+2028,
  U+2029, U+202F, U+205F and U+3000.
\<close>

definition whitespace :: "string list" where
  "whitespace =
     [[CHR 0x09], [CHR 0x0A], [CHR 0x0B], [CHR 0x0C], [CHR 0x0D],
      [CHR 0x1C], [CHR 0x1D], [CHR 0x1E], [CHR 0x1F], [CHR 0x20],
      [CHR 0xC2, CHR 0x85], [CHR 0xC2, CHR 0xA0], [CHR 0xE1, CHR 0x9A, CHR 0x80],
      [CHR 0xE2, CHR 0x80, CHR 0x80], [CHR 0xE2, CHR 0x80, CHR 0x81],
      [CHR 0xE2, CHR 0x80, CHR 0x82], [CHR 0xE2, CHR 0x80, CHR 0x83],
      [CHR 0xE2, CHR 0x80, CHR 0x84], [CHR 0xE2, CHR 0x80, CHR 0x85],
      [CHR 0xE2, CHR 0x80, CHR 0x86], [CHR 0xE2, CHR 0x80, CHR 0x87],
      [CHR 0xE2, CHR 0x80, CHR 0x88], [CHR 0xE2, CHR 0x80, CHR 0x89],
      [CHR 0xE2, CHR 0x80, CHR 0x8A], [CHR 0xE2, CHR 0x80, CHR 0xA8],
      [CHR 0xE2, CHR 0x80, CHR 0xA9], [CHR 0xE2, CHR 0x80, CHR 0xAF],
      [CHR 0xE2, CHR 0x81, CHR 0x9F], [CHR 0xE3, CHR 0x80, CHR 0x80]]"

definition is_space :: "string \<Rightarrow> bool" where
  "is_space ch = (ch \<in> set whitespace)"

definition strip :: "string \<Rightarrow> string" where
  "strip l = concat (rev (dropWhile is_space (rev (dropWhile is_space (chars l)))))"

definition read_city_names_from_file :: "env \<Rightarrow> string \<Rightarrow> string list prog" where
  "read_city_names_from_file env file_path =
     (case read_file env file_path of
        Lines ls \<Rightarrow>
          let cities = map strip (filter (\<lambda>line. strip line \<noteq> []) ls) in
          andthen (if cities = [] then
                     eprint [Text (''[warning] The file '' @ [CHR 0x27]), Text file_path,
                             Text ([CHR 0x27] @ '' was read, but no cities were found.'')]
                   else ret ()) (\<lambda>_.
          ret cities)
      | Missing \<Rightarrow>
          andthen (eprint [Text ''[error] Could not find file: '', Text file_path]) (\<lambda>_.
          raise FileNotFoundError)
      | Unreadable \<Rightarrow>
          andthen (eprint [Text (''[error] Unexpected error reading the file '' @ [CHR 0x27]),
                           Text file_path, Text ([CHR 0x27] @ '': ''), Exc OSError]) (\<lambda>_.
          raise OSError))"

record args =
  args_file :: string
  args_format :: string
  args_out :: "string option"

text \<open>\<open>main\<close>, once \<^verbatim>\<open>argparse\<close> has accepted the command line.\<close>

definition main :: "env \<Rightarrow> args \<Rightarrow> world \<Rightarrow> int \<times> world" where
  "main env a s =
     (case read_city_names_from_file env (args_file a) s of
        (Inl e, s1) \<Rightarrow> (2, s1)
      | (Inr cities, s1) \<Rightarrow>
          if cities = [] then
            (3, snd (eprint [Text ''[error] Please add city names to the file''] s1))
          else
            (case process_weather_for_cities env cities (args_format a) (args_out a) s1 of
               (Inl e, s2) \<Rightarrow>
                 (1, snd (eprint [Text ''[error] Something went wrong: '', Exc e] s2))
             | (Inr r, s2) \<Rightarrow> (0, s2)))"

section \<open>Observations on a run\<close>

text \<open>
  The cities of the list that are resolved and fetched when the loop runs from a given
  state, each with the name it resolved to and its reading, in order. The list ends where
  the loop raises.
\<close>

fun fetched :: "env \<Rightarrow> string list \<Rightarrow> world \<Rightarrow> (json \<times> reading) list" where
  "fetched env [] s = []"
| "fetched env (city # rest) s =
     (case lookup_city env city s of
        (Inl e, s1) \<Rightarrow> []
      | (Inr None, s1) \<Rightarrow> fetched env rest s1
      | (Inr (Some (city_name, weather)), s1) \<Rightarrow>
          (city_name, weather) #
            (case hashable city_name of
               Inl e \<Rightarrow> []
             | Inr key \<Rightarrow> fetched env rest (snd (sleep (1 / 2) s1))))"

text \<open>The keys under which the loop stores the fetched cities.\<close>

definition fetched_keys :: "(json \<times> reading) list \<Rightarrow> pykey list" where
  "fetched_keys fs =
     concat (map (\<lambda>(city_name, weather).
        case hashable city_name of Inl e \<Rightarrow> [] | Inr key \<Rightarrow> [key]) fs)"

text \<open>The temperatures that the loop collects from the fetched cities.\<close>

definition fetched_temperatures :: "(json \<times> reading) list \<Rightarrow> json list" where
  "fetched_temperatures fs =
     concat (map (\<lambda>(city_name, weather).
        case hashable city_name of
          Inl e \<Rightarrow> []
        | Inr key \<Rightarrow> if temperature weather \<noteq> JNull then [temperature weather] else []) fs)"

text \<open>
  What resolving and fetching one city adds to the log, and the log that the loop is
  said to leave: city by city, what the city adds, then one pause of half a second if
  the city is stored and nothing if it is skipped. It ends where the loop raises.
\<close>

definition city_events :: "env \<Rightarrow> string \<Rightarrow> world \<Rightarrow> event list" where
  "city_events env city s = drop (length (log s)) (log (snd (lookup_city env city s)))"

fun loop_log :: "env \<Rightarrow> string list \<Rightarrow> world \<Rightarrow> event list" where
  "loop_log env [] s = []"
| "loop_log env (city # rest) s =
     city_events env city s @
     (case lookup_city env city s of
        (Inl e, s1) \<Rightarrow> []
      | (Inr None, s1) \<Rightarrow> loop_log env rest s1
      | (Inr (Some (city_name, weather)), s1) \<Rightarrow>
          (case hashable city_name of
             Inl e \<Rightarrow> []
           | Inr key \<Rightarrow> Sleep (1 / 2) # loop_log env rest (snd (sleep (1 / 2) s1))))"

text \<open>
  What a log shows: the number of requests, the waits in order, the number of pauses of
  half a second between cities, and the files written.
\<close>

definition requests :: "event list \<Rightarrow> nat" where
  "requests evs = length (filter (\<lambda>e. case e of Get u p \<Rightarrow> True | _ \<Rightarrow> False) evs)"

text \<open>
  What a failed attempt leaves in the log while attempts remain: the request, the
  diagnostic line and then the wait; and what the last failed attempt leaves.
\<close>

definition retry_events :: "string \<Rightarrow> pydict \<Rightarrow> int \<Rightarrow> request_exception \<Rightarrow> event list" where
  "retry_events url params attempt err =
     [Get url params,
      Stderr [Text ''[info] Request failed (attempt '', Shown (JNum (PInt attempt)),
              Text ''): '', RequestExc err, Text ''. Retrying...''],
      Sleep RETRY_DELAY]"

definition giving_up_events :: "string \<Rightarrow> pydict \<Rightarrow> int \<Rightarrow> request_exception \<Rightarrow> event list" where
  "giving_up_events url params attempt err =
     [Get url params,
      Stderr [Text ''[error] Failed after '', Shown (JNum (PInt attempt)),
              Text '' retries: '', RequestExc err]]"

definition pauses :: "event list \<Rightarrow> nat" where
  "pauses evs = count_list evs (Sleep (1 / 2))"

definition writes :: "event list \<Rightarrow> event list" where
  "writes evs = filter (\<lambda>e. case e of Write f d \<Rightarrow> True | _ \<Rightarrow> False) evs"

text \<open>Kinds of events, for what a part of the program leaves out of the log.\<close>

definition is_write :: "event \<Rightarrow> bool" where
  "is_write e = (case e of Write f d \<Rightarrow> True | _ \<Rightarrow> False)"

definition quiet :: "event \<Rightarrow> bool" where
  "quiet e = (e \<noteq> Sleep (1 / 2) \<and> \<not> is_write e)"

definition no_pause :: "event \<Rightarrow> bool" where
  "no_pause e = (e \<noteq> Sleep (1 / 2))"

definition no_write :: "event \<Rightarrow> bool" where
  "no_write e = (\<not> is_write e)"

text \<open>\<open>emits P m\<close>: whatever \<open>m\<close> does, it only appends events that satisfy \<open>P\<close> to the log.\<close>

definition emits :: "(event \<Rightarrow> bool) \<Rightarrow> 'a prog \<Rightarrow> bool" where
  "emits P m = (\<forall>s. \<exists>evs. log (snd (m s)) = log s @ evs \<and> list_all P evs)"

text \<open>\<open>returns m\<close>: \<open>m\<close> raises no exception.\<close>

definition returns :: "'a prog \<Rightarrow> bool" where
  "returns m = (\<forall>s. \<exists>x. fst (m s) = Inr x)"

section \<open>Example runs\<close>

definition world0 :: world where
  "world0 = \<lparr>served = 0, log = []\<rparr>"

abbreviation geocode_params :: "string \<Rightarrow> pydict" where
  "geocode_params city_name \<equiv> [(''name'', JStr city_name), (''count'', JNum (PInt 1))]"

abbreviation weather_params :: "json \<Rightarrow> json \<Rightarrow> pydict" where
  "weather_params lat lon \<equiv>
     [(''latitude'', lat), (''longitude'', lon), (''current_weather'', JBool True)]"

text \<open>
  An arithmetic for the examples: the interpreter's, without the rounding. \<^verbatim>\<open>sum\<close> starts
  at the \<^verbatim>\<open>int\<close> 0 and adds from the left. Two \<^verbatim>\<open>int\<close>s add exactly. Otherwise both
  numbers are taken as \<^verbatim>\<open>float\<close>s, which raises \<^verbatim>\<open>OverflowError\<close> for an \<^verbatim>\<open>int\<close> beyond
  the range of the doubles; NaN absorbs, opposite infinities give NaN, and a finite sum
  beyond the range is an infinity. The quotient of an \<^verbatim>\<open>int\<close> raises \<^verbatim>\<open>OverflowError\<close>
  beyond the range, and a division by the length 0 raises \<^verbatim>\<open>ZeroDivisionError\<close>. A
  magnitude is beyond the range from \<^verbatim>\<open>2**1024 - 2**970\<close> on, where rounding to the nearest
  double leaves the doubles. On the numbers of the runs below, where every sum and
  quotient is a double, this is what the interpreter computes; a sum or quotient that is
  not a double the interpreter rounds, and this arithmetic does not.
\<close>

definition beyond_doubles :: "rat \<Rightarrow> bool" where
  "beyond_doubles q = (2 ^ 1024 - 2 ^ 970 \<le> \<bar>q\<bar>)"

fun value_of :: "pynum \<Rightarrow> rat" where
  "value_of (PInt i) = of_int i"
| "value_of (PFloat q) = q"
| "value_of _ = 0"

fun to_float :: "pynum \<Rightarrow> exn + pynum" where
  "to_float (PInt i) =
     (if beyond_doubles (of_int i) then Inl OverflowError else Inr (PFloat (of_int i)))"
| "to_float x = Inr x"

fun float_add :: "pynum \<Rightarrow> pynum \<Rightarrow> pynum" where
  "float_add PNaN y = PNaN"
| "float_add x PNaN = PNaN"
| "float_add (PInf a) (PInf b) = (if a = b then PInf a else PNaN)"
| "float_add (PInf a) y = PInf a"
| "float_add x (PInf b) = PInf b"
| "float_add x y =
     (if beyond_doubles (value_of x + value_of y) then PInf (0 < value_of x + value_of y)
      else PFloat (value_of x + value_of y))"

fun py_add :: "pynum \<Rightarrow> pynum \<Rightarrow> exn + pynum" where
  "py_add (PInt i) (PInt j) = Inr (PInt (i + j))"
| "py_add x y =
     (case to_float x of
        Inl e \<Rightarrow> Inl e
      | Inr fx \<Rightarrow>
          (case to_float y of
             Inl e \<Rightarrow> Inl e
           | Inr fy \<Rightarrow> Inr (float_add fx fy)))"

fun sum_from :: "pynum \<Rightarrow> pynum list \<Rightarrow> exn + pynum" where
  "sum_from acc [] = Inr acc"
| "sum_from acc (x # xs) =
     (case py_add acc x of
        Inl e \<Rightarrow> Inl e
      | Inr acc' \<Rightarrow> sum_from acc' xs)"

definition exact_sum :: "pynum list \<Rightarrow> exn + pynum" where
  "exact_sum xs = sum_from (PInt 0) xs"

fun exact_divide :: "pynum \<Rightarrow> nat \<Rightarrow> exn + pynum" where
  "exact_divide x 0 = Inl ZeroDivisionError"
| "exact_divide (PInt i) (Suc n) =
     (if beyond_doubles (of_int i / of_nat (Suc n)) then Inl OverflowError
      else Inr (PFloat (of_int i / of_nat (Suc n))))"
| "exact_divide (PFloat q) (Suc n) = Inr (PFloat (q / of_nat (Suc n)))"
| "exact_divide x (Suc n) = Inr x"

definition exact_runtime :: runtime where
  "exact_runtime = \<lparr>sum_builtin = exact_sum, true_divide = exact_divide\<rparr>"

definition env_of :: "(string \<Rightarrow> pydict \<Rightarrow> nat \<Rightarrow> http_result) \<Rightarrow> env" where
  "env_of f = \<lparr>net = f, read_file = (\<lambda>p. Missing), writable = (\<lambda>p. True),
              python = exact_runtime\<rparr>"

definition flaky_net :: "string \<Rightarrow> pydict \<Rightarrow> nat \<Rightarrow> http_result" where
  "flaky_net url params i =
     (if i = 0 then Failed ConnectionError
      else if i = 1 then Failed (HTTPError 503)
      else Body (JObj [(''ok'', JBool True)]))"

definition down_net :: "string \<Rightarrow> pydict \<Rightarrow> nat \<Rightarrow> http_result" where
  "down_net url params i =
     (if i = 0 then Failed Timeout
      else if i = 1 then Failed (HTTPError 404)
      else Failed ConnectionError)"

definition paris_info :: pydict where
  "paris_info = [(''name'', JStr ''Paris''), (''latitude'', JNum (PFloat (195 / 4))),
                 (''longitude'', JNum (PFloat (9 / 4)))]"

definition paris_weather :: pydict where
  "paris_weather = [(''temperature'', JNum (PFloat 10)), (''windspeed'', JNum (PFloat 12)),
                    (''winddirection'', JNum (PFloat 270)), (''weathercode'', JNum (PInt 3)),
                    (''time'', JStr ''2024-01-01T12:00'')]"

definition paris_reading :: reading where
  "paris_reading = \<lparr>temperature = JNum (PFloat 10), windspeed = JNum (PFloat 12), winddirection = JNum (PFloat 270),
                     weathercode = JNum (PInt 3), timestamp = JStr ''2024-01-01T12:00''\<rparr>"

definition paris_entry :: entry where
  "paris_entry = City \<lparr>entry_temperature = JNum (PFloat 10), entry_windspeed = JNum (PFloat 12),
                        entry_winddirection = JNum (PFloat 270),
                        entry_timestamp = JStr ''2024-01-01T12:00''\<rparr>"

text \<open>
  A network that knows Paris only: every geocoding request for another name gets a body
  without results, every weather request the same reading.
\<close>

definition paris_net :: "string \<Rightarrow> pydict \<Rightarrow> nat \<Rightarrow> http_result" where
  "paris_net url params i =
     (if url = GEOCODE_API_URL then
        (if dict_get params ''name'' = JStr ''Paris''
         then Body (JObj [(''results'', JArr [JObj paris_info])])
         else Body (JObj [(''generationtime_ms'', JNum (PFloat 1))]))
      else Body (JObj [(''current_weather'', JObj paris_weather)]))"

definition file_env :: "file_result \<Rightarrow> env" where
  "file_env fr = \<lparr>net = paris_net, read_file = (\<lambda>p. fr), writable = (\<lambda>p. True),
                  python = exact_runtime\<rparr>"

definition lat_only_info :: pydict where
  "lat_only_info = [(''name'', JStr ''Paris''), (''latitude'', JNum (PFloat (195 / 4)))]"

definition lat_only_net :: "string \<Rightarrow> pydict \<Rightarrow> nat \<Rightarrow> http_result" where
  "lat_only_net url params i = Body (JObj [(''results'', JArr [JObj lat_only_info])])"

definition empty_section_net :: "string \<Rightarrow> pydict \<Rightarrow> nat \<Rightarrow> http_result" where
  "empty_section_net url params i = Body (JObj [(''current_weather'', JObj [])])"

definition empty_body_net :: "string \<Rightarrow> pydict \<Rightarrow> nat \<Rightarrow> http_result" where
  "empty_body_net url params i = Body (JObj [])"

text \<open>
  A weather service that reports a temperature of \<^verbatim>\<open>10**400\<close>, an \<^verbatim>\<open>int\<close> beyond the
  range of the doubles, and a run on it for the one city Paris.
\<close>

definition huge_weather :: pydict where
  "huge_weather = [(''temperature'', JNum (PInt (10 ^ 400)))]"

definition huge_reading :: reading where
  "huge_reading = \<lparr>temperature = JNum (PInt (10 ^ 400)), windspeed = JNull,
                    winddirection = JNull, weathercode = JNull, timestamp = JNull\<rparr>"

definition huge_net :: "string \<Rightarrow> pydict \<Rightarrow> nat \<Rightarrow> http_result" where
  "huge_net url params i =
     (if url = GEOCODE_API_URL then Body (JObj [(''results'', JArr [JObj paris_info])])
      else Body (JObj [(''current_weather'', JObj huge_weather)]))"

definition huge_env :: env where
  "huge_env = \<lparr>net = huge_net, read_file = (\<lambda>p. Lines [''Paris'']), writable = (\<lambda>p. True),
               python = exact_runtime\<rparr>"

definition csv_args :: args where
  "csv_args = \<lparr>args_file = ''cities.txt'', args_format = ''csv'', args_out = None\<rparr>"

definition json_args :: args where
  "json_args = \<lparr>args_file = ''cities.txt'', args_format = ''json'', args_out = None\<rparr>"

definition paris_twice_result :: result where
  "paris_twice_result =
     [(KStr ''Paris'', paris_entry),
      (KStr ''stats'', Summary \<lparr>stat_min = Some (PFloat 10), stat_max = Some (PFloat 10), stat_average = Some (PFloat 10)\<rparr>)]"

definition zero_result :: result where
  "zero_result =
     [(KStr ''Oslo'', City \<lparr>entry_temperature = JNum (PFloat 0), entry_windspeed = JNum (PFloat 5),
                             entry_winddirection = JNum (PFloat 90),
                             entry_timestamp = JStr ''2024-01-01T12:00''\<rparr>),
      (KStr ''stats'', Summary \<lparr>stat_min = Some (PFloat 0), stat_max = Some (PFloat 0), stat_average = Some (PFloat 0)\<rparr>)]"

section \<open>Properties of the Statistics Aggregator\<close>

lemma within_doubles: "\<bar>q\<bar> \<le> 1000 \<Longrightarrow> \<not> beyond_doubles q"
proof -
  have "(1000::rat) < 2 ^ 1024 - 2 ^ 970" by simp
  then show "\<bar>q\<bar> \<le> 1000 \<Longrightarrow> \<not> beyond_doubles q"
    by (simp add: beyond_doubles_def)
qed

lemma py_le_refl: "x \<noteq> PNaN \<Longrightarrow> py_le x x"
  by (cases x) (simp_all add: py_le_def)

lemma py_le_trans: "py_le x y \<Longrightarrow> py_le y z \<Longrightarrow> py_le x z"
  by (auto simp: py_le_def split: option.splits prod.splits)

lemma py_lt_le: "py_lt x y \<Longrightarrow> py_le x y"
  by (auto simp: py_lt_def py_le_def split: option.splits prod.splits)

lemma not_py_lt_le: "x \<noteq> PNaN \<Longrightarrow> y \<noteq> PNaN \<Longrightarrow> \<not> py_lt x y \<Longrightarrow> py_le y x"
  by (cases x; cases y) (auto simp: py_lt_def py_le_def split: if_splits)

lemma py_le_NaN: "\<not> py_le PNaN x" "\<not> py_le x PNaN"
  by (simp_all add: py_le_def split: option.splits prod.splits)

lemma fold_min_least:
  assumes "PNaN \<notin> set (x # xs)"
  shows "fold (\<lambda>item m. if py_lt item m then item else m) xs x \<in> set (x # xs) \<and>
         (\<forall>t \<in> set (x # xs). py_le (fold (\<lambda>item m. if py_lt item m then item else m) xs x) t)"
  using assms
proof (induction xs arbitrary: x)
  case Nil
  then show ?case by (simp add: py_le_refl)
next
  case (Cons y ys)
  let ?x = "if py_lt y x then y else x"
  let ?m = "fold (\<lambda>item m. if py_lt item m then item else m) ys ?x"
  from Cons.prems have n: "x \<noteq> PNaN" "y \<noteq> PNaN" "PNaN \<notin> set ys" by auto
  then have "PNaN \<notin> set (?x # ys)" by auto
  from Cons.IH [OF this] have mem: "?m \<in> set (?x # ys)"
    and le: "\<forall>t \<in> set (?x # ys). py_le ?m t" by blast+
  from le have mx: "py_le ?m ?x" by simp
  have "py_le ?x x" "py_le ?x y"
    using n by (auto simp: py_le_refl py_lt_le not_py_lt_le)
  with mx have "py_le ?m x" "py_le ?m y" by (blast intro: py_le_trans)+
  with le have "\<forall>t \<in> set (x # y # ys). py_le ?m t" by simp
  moreover from mem have "?m \<in> set (x # y # ys)" by auto
  ultimately show ?case by simp
qed

lemma fold_max_greatest:
  assumes "PNaN \<notin> set (x # xs)"
  shows "fold (\<lambda>item m. if py_lt m item then item else m) xs x \<in> set (x # xs) \<and>
         (\<forall>t \<in> set (x # xs). py_le t (fold (\<lambda>item m. if py_lt m item then item else m) xs x))"
  using assms
proof (induction xs arbitrary: x)
  case Nil
  then show ?case by (simp add: py_le_refl)
next
  case (Cons y ys)
  let ?x = "if py_lt x y then y else x"
  let ?m = "fold (\<lambda>item m. if py_lt m item then item else m) ys ?x"
  from Cons.prems have n: "x \<noteq> PNaN" "y \<noteq> PNaN" "PNaN \<notin> set ys" by auto
  then have "PNaN \<notin> set (?x # ys)" by auto
  from Cons.IH [OF this] have mem: "?m \<in> set (?x # ys)"
    and le: "\<forall>t \<in> set (?x # ys). py_le t ?m" by blast+
  from le have mx: "py_le ?x ?m" by simp
  have "py_le x ?x" "py_le y ?x"
    using n by (auto simp: py_le_refl py_lt_le not_py_lt_le)
  with mx have "py_le x ?m" "py_le y ?m" by (blast intro: py_le_trans)+
  with le have "\<forall>t \<in> set (x # y # ys). py_le t ?m" by simp
  moreover from mem have "?m \<in> set (x # y # ys)" by auto
  ultimately show ?case by simp
qed

lemma py_min_least:
  "xs \<noteq> [] \<Longrightarrow> PNaN \<notin> set xs \<Longrightarrow>
   \<exists>m. py_min xs = Inr m \<and> m \<in> set xs \<and> (\<forall>t \<in> set xs. py_le m t)"
proof (cases xs)
  case Nil
  assume "xs \<noteq> []"
  with Nil show ?thesis by simp
next
  case (Cons a list)
  assume "PNaN \<notin> set xs"
  with Cons have "PNaN \<notin> set (a # list)" by simp
  from fold_min_least [OF this] Cons show ?thesis by (simp only: py_min.simps) blast
qed

lemma py_max_greatest:
  "xs \<noteq> [] \<Longrightarrow> PNaN \<notin> set xs \<Longrightarrow>
   \<exists>m. py_max xs = Inr m \<and> m \<in> set xs \<and> (\<forall>t \<in> set xs. py_le t m)"
proof (cases xs)
  case Nil
  assume "xs \<noteq> []"
  with Nil show ?thesis by simp
next
  case (Cons a list)
  assume "PNaN \<notin> set xs"
  with Cons have "PNaN \<notin> set (a # list)" by simp
  from fold_max_greatest [OF this] Cons show ?thesis by (simp only: py_max.simps) blast
qed

lemma compute_weather_stats_returns:
  assumes "py_min temperatures = Inr min_temp" and "py_max temperatures = Inr max_temp"
    and "sum_builtin rt temperatures = Inr temp_sum"
    and "true_divide rt temp_sum (length temperatures) = Inr avg"
  shows "compute_weather_stats rt temperatures =
           Inr \<lparr>stat_min = Some min_temp, stat_max = Some max_temp, stat_average = Some avg\<rparr>"
proof -
  from assms(1) have "temperatures \<noteq> []" by auto
  with assms show ?thesis by (simp add: compute_weather_stats_def)
qed

text \<open>
  C7, as the code has it. On a non-empty sequence of temperatures none of which is NaN,
  the summary holds as \<open>min\<close> and \<open>max\<close> elements of the sequence that are least and
  greatest in the order of the numbers, so that they bound every element, and as
  \<open>average\<close> what the interpreter's arithmetic gives for \<^verbatim>\<open>sum(temperatures) /
  len(temperatures)\<close>, when that arithmetic raises nothing.
\<close>

theorem compute_weather_stats_nonempty:
  "temperatures \<noteq> [] \<Longrightarrow> PNaN \<notin> set temperatures \<Longrightarrow>
   sum_builtin rt temperatures = Inr temp_sum \<Longrightarrow>
   true_divide rt temp_sum (length temperatures) = Inr avg \<Longrightarrow>
   \<exists>min_temp max_temp.
     compute_weather_stats rt temperatures =
       Inr \<lparr>stat_min = Some min_temp, stat_max = Some max_temp, stat_average = Some avg\<rparr> \<and>
     min_temp \<in> set temperatures \<and> max_temp \<in> set temperatures \<and>
     (\<forall>t \<in> set temperatures. py_le min_temp t \<and> py_le t max_temp)"
proof -
  assume ne: "temperatures \<noteq> []" and nn: "PNaN \<notin> set temperatures"
    and s: "sum_builtin rt temperatures = Inr temp_sum"
    and d: "true_divide rt temp_sum (length temperatures) = Inr avg"
  from py_min_least [OF ne nn] obtain m where m: "py_min temperatures = Inr m"
    and a: "m \<in> set temperatures" and b: "\<forall>t \<in> set temperatures. py_le m t" by blast
  from py_max_greatest [OF ne nn] obtain M where M: "py_max temperatures = Inr M"
    and c: "M \<in> set temperatures" and e: "\<forall>t \<in> set temperatures. py_le t M" by blast
  from compute_weather_stats_returns [OF m M s d] a b c e show ?thesis by blast
qed

lemma exact_example:
  "sum_builtin exact_runtime [PFloat 10, PInt (- 3), PFloat 2] = Inr (PFloat 9)"
  "true_divide exact_runtime (PFloat 9) (length [PFloat 10, PInt (- 3), PFloat 2]) = Inr (PFloat 3)"
  by (simp_all add: exact_runtime_def exact_sum_def within_doubles)

theorem compute_weather_stats_nonempty_witness:
  "[PFloat 10, PInt (- 3), PFloat 2] \<noteq> [] \<and>
   PNaN \<notin> set [PFloat 10, PInt (- 3), PFloat 2] \<and>
   compute_weather_stats exact_runtime [PFloat 10, PInt (- 3), PFloat 2] =
     Inr \<lparr>stat_min = Some (PInt (- 3)), stat_max = Some (PFloat 10),
          stat_average = Some (PFloat 3)\<rparr> \<and>
   py_le (PInt (- 3)) (PFloat 2) \<and> py_le (PFloat 2) (PFloat 10)"
proof -
  have ne: "[PFloat 10, PInt (- 3), PFloat 2] \<noteq> []" by simp
  have nn: "PNaN \<notin> set [PFloat 10, PInt (- 3), PFloat 2]" by simp
  have v: "compute_weather_stats exact_runtime [PFloat 10, PInt (- 3), PFloat 2] =
     Inr \<lparr>stat_min = Some (PInt (- 3)), stat_max = Some (PFloat 10),
          stat_average = Some (PFloat 3)\<rparr>"
    by (simp add: compute_weather_stats_def exact_runtime_def exact_sum_def within_doubles py_lt_def)
  from compute_weather_stats_nonempty [OF ne nn exact_example(1) exact_example(2)]
  obtain m M where
    "compute_weather_stats exact_runtime [PFloat 10, PInt (- 3), PFloat 2] =
       Inr \<lparr>stat_min = Some m, stat_max = Some M, stat_average = Some (PFloat 3)\<rparr>"
    and "\<forall>t \<in> set [PFloat 10, PInt (- 3), PFloat 2]. py_le m t \<and> py_le t M"
    by blast
  with v have "py_le (PInt (- 3)) (PFloat 2) \<and> py_le (PFloat 2) (PFloat 10)"
    by simp
  with ne nn v show ?thesis by blast
qed

text \<open>
  C7, as stated, fails: every comparison with NaN is false, so on the sequence of NaN
  and 1.0 both passes keep their first element, and the \<open>min\<close> returned is not below or
  equal to the element 1.0.
\<close>

theorem compute_weather_stats_nonempty_counterexample:
  "compute_weather_stats exact_runtime [PNaN, PFloat 1] =
     Inr \<lparr>stat_min = Some PNaN, stat_max = Some PNaN, stat_average = Some PNaN\<rparr> \<and>
   \<not> py_le PNaN (PFloat 1) \<and> \<not> py_le (PFloat 1) PNaN"
  by (simp add: compute_weather_stats_def exact_runtime_def exact_sum_def within_doubles py_lt_def py_le_def)

text \<open>
  C8. On the empty sequence of temperatures all three fields of the summary are absent.
\<close>

theorem compute_weather_stats_empty:
  "compute_weather_stats rt [] =
     Inr \<lparr>stat_min = None, stat_max = None, stat_average = None\<rparr>"
  by (simp add: compute_weather_stats_def)

section \<open>Properties of the Retrying HTTP Fetcher\<close>

lemmas prog_defs = ret_def raise_def lift_def andthen_def emit_def py_print_def eprint_def
  sleep_def http_get_def

lemma attempts_requests_le:
  "requests (log (snd (attempts env url params n as s))) \<le> requests (log s) + length as"
proof (induction as arbitrary: s)
  case Nil
  then show ?case by (simp add: prog_defs)
next
  case (Cons a as)
  show ?case
  proof (cases "net env url params (served s)")
    case (Body b)
    then show ?thesis by (simp add: prog_defs requests_def)
  next
    case (Failed err)
    show ?thesis
    proof (cases "a < n")
      case True
      let ?s1 = "s\<lparr>served := Suc (served s), log := log s @ retry_events url params a err\<rparr>"
      have "attempts env url params n (a # as) s = attempts env url params n as ?s1"
        using Failed True by (simp add: prog_defs retry_events_def)
      moreover have "requests (log ?s1) = Suc (requests (log s))"
        by (simp add: requests_def retry_events_def)
      ultimately show ?thesis using Cons [of ?s1] by simp
    next
      case False
      then show ?thesis using Failed by (simp add: prog_defs requests_def)
    qed
  qed
qed

lemma attempts_retry:
  assumes "a < n" and "net env url params (served s) = Failed err"
  shows "attempts env url params n [a..n] s =
         attempts env url params n [a + 1..n]
           (s\<lparr>served := Suc (served s), log := log s @ retry_events url params a err\<rparr>)"
proof -
  from assms(1) have "a \<le> n" by simp
  then have u: "[a..n] = a # [a + 1..n]" by (rule upto_rec1)
  show ?thesis unfolding u using assms by (simp add: prog_defs retry_events_def)
qed

lemma concat_retries:
  "f 0 @ concat (map (\<lambda>j. f (Suc j)) [0..<k]) = concat (map f [0..<Suc k])"
  by (simp only: map_upt_Suc concat.simps)

lemma attempts_success:
  "\<lbrakk>k < nat (n - a + 1); \<forall>j<k. net env url params (served s + j) = Failed (errs j);
    net env url params (served s + k) = Body b\<rbrakk> \<Longrightarrow>
   attempts env url params n [a..n] s =
     (Inr b,
      s\<lparr>served := served s + k + 1,
        log := log s @ concat (map (\<lambda>j. retry_events url params (a + int j) (errs j)) [0..<k])
                 @ [Get url params]\<rparr>)"
proof (induction k arbitrary: a s errs)
  case 0
  then have "a \<le> n" by simp
  then have u: "[a..n] = a # [a + 1..n]" by (rule upto_rec1)
  show ?case using 0 unfolding u by (simp add: prog_defs)
next
  case (Suc k)
  then have an: "a < n" by simp
  from Suc.prems(2) have f: "net env url params (served s) = Failed (errs 0)"
    by force
  let ?s1 = "s\<lparr>served := Suc (served s), log := log s @ retry_events url params a (errs 0)\<rparr>"
  have 1: "k < nat (n - (a + 1) + 1)" using Suc.prems(1) by simp
  have 2: "\<forall>j<k. net env url params (served ?s1 + j) = Failed (errs (Suc j))"
  proof (intro allI impI)
    fix j assume "j < k"
    then have "Suc j < Suc k" by simp
    with Suc.prems(2) have "net env url params (served s + Suc j) = Failed (errs (Suc j))"
      by blast
    then show "net env url params (served ?s1 + j) = Failed (errs (Suc j))" by simp
  qed
  have 3: "net env url params (served ?s1 + k) = Body b"
    using Suc.prems(3) by simp
  have c: "retry_events url params a (errs 0) @
        concat (map (\<lambda>j. retry_events url params (a + 1 + int j) (errs (Suc j))) [0..<k]) =
        concat (map (\<lambda>j. retry_events url params (a + int j) (errs j)) [0..<Suc k])"
  proof -
    have e: "(\<lambda>j. retry_events url params (a + 1 + int j) (errs (Suc j))) =
             (\<lambda>j. retry_events url params (a + int (Suc j)) (errs (Suc j)))"
      by (intro ext) (simp add: algebra_simps)
    have "retry_events url params (a + int 0) (errs 0) @
        concat (map (\<lambda>j. retry_events url params (a + int (Suc j)) (errs (Suc j))) [0..<k]) =
        concat (map (\<lambda>j. retry_events url params (a + int j) (errs j)) [0..<Suc k])"
      by (rule concat_retries)
    then show ?thesis unfolding e by (simp only: of_nat_0 add_0_right)
  qed
  have st: "?s1\<lparr>served := served ?s1 + k + 1,
        log := log ?s1 @
          concat (map (\<lambda>j. retry_events url params (a + 1 + int j) (errs (Suc j))) [0..<k]) @
          [Get url params]\<rparr> =
      s\<lparr>served := served s + Suc k + 1,
        log := log s @
          concat (map (\<lambda>j. retry_events url params (a + int j) (errs j)) [0..<Suc k]) @
          [Get url params]\<rparr>"
    unfolding c [symmetric] by simp
  from Suc.IH [OF 1 2 3] show ?case
    unfolding attempts_retry [OF an f] st .
qed

lemma attempts_exhausted:
  "\<lbrakk>m = nat (n - a); a \<le> n; \<forall>j<Suc m. net env url params (served s + j) = Failed (errs j)\<rbrakk> \<Longrightarrow>
   attempts env url params n [a..n] s =
     (Inr JNull,
      s\<lparr>served := served s + Suc m,
        log := log s @ concat (map (\<lambda>j. retry_events url params (a + int j) (errs j)) [0..<m])
                 @ giving_up_events url params n (errs m)\<rparr>)"
proof (induction m arbitrary: a s errs)
  case 0
  then have an: "a = n" by simp
  have u: "[n..n] = [n]" by simp
  from "0.prems"(3) have f: "net env url params (served s) = Failed (errs 0)"
    by force
  show ?case unfolding an u using f by (simp add: prog_defs giving_up_events_def)
next
  case (Suc m)
  then have an: "a < n" by simp
  from Suc.prems(3) have f: "net env url params (served s) = Failed (errs 0)"
    by force
  let ?s1 = "s\<lparr>served := Suc (served s), log := log s @ retry_events url params a (errs 0)\<rparr>"
  have 1: "m = nat (n - (a + 1))" using Suc.prems(1) by simp
  have 2: "a + 1 \<le> n" using an by simp
  have 3: "\<forall>j<Suc m. net env url params (served ?s1 + j) = Failed (errs (Suc j))"
  proof (intro allI impI)
    fix j assume "j < Suc m"
    then have "Suc j < Suc (Suc m)" by simp
    with Suc.prems(3) have "net env url params (served s + Suc j) = Failed (errs (Suc j))"
      by blast
    then show "net env url params (served ?s1 + j) = Failed (errs (Suc j))" by simp
  qed
  have c: "retry_events url params a (errs 0) @
        concat (map (\<lambda>j. retry_events url params (a + 1 + int j) (errs (Suc j))) [0..<m]) =
        concat (map (\<lambda>j. retry_events url params (a + int j) (errs j)) [0..<Suc m])"
  proof -
    have e: "(\<lambda>j. retry_events url params (a + 1 + int j) (errs (Suc j))) =
             (\<lambda>j. retry_events url params (a + int (Suc j)) (errs (Suc j)))"
      by (intro ext) (simp add: algebra_simps)
    have "retry_events url params (a + int 0) (errs 0) @
        concat (map (\<lambda>j. retry_events url params (a + int (Suc j)) (errs (Suc j))) [0..<m]) =
        concat (map (\<lambda>j. retry_events url params (a + int j) (errs j)) [0..<Suc m])"
      by (rule concat_retries)
    then show ?thesis unfolding e by (simp only: of_nat_0 add_0_right)
  qed
  have st: "?s1\<lparr>served := served ?s1 + Suc m,
        log := log ?s1 @
          concat (map (\<lambda>j. retry_events url params (a + 1 + int j) (errs (Suc j))) [0..<m]) @
          giving_up_events url params n (errs (Suc m))\<rparr> =
      s\<lparr>served := served s + Suc (Suc m),
        log := log s @
          concat (map (\<lambda>j. retry_events url params (a + int j) (errs j)) [0..<Suc m]) @
          giving_up_events url params n (errs (Suc m))\<rparr>"
    unfolding c [symmetric] by simp
  from Suc.IH [OF 1 2 3] show ?case
    unfolding attempts_retry [OF an f] st .
qed

lemma attempts_no_raise: "\<exists>b. fst (attempts env url params n as s) = Inr b"
proof (induction as arbitrary: s)
  case Nil
  then show ?case by (simp add: prog_defs)
next
  case (Cons a as)
  show ?case
  proof (cases "net env url params (served s)")
    case (Body b)
    then show ?thesis by (simp add: prog_defs)
  next
    case (Failed err)
    then show ?thesis using Cons by (simp add: prog_defs)
  qed
qed

text \<open>
  C5. With an attempt bound \<open>n \<ge> 1\<close> the Fetcher issues at most \<open>n\<close> requests. While
  requests fail, whatever the kind of each failure, every failed attempt but the \<open>n\<close>-th
  is followed by its diagnostic line and the fixed wait of 1.5 seconds, and only then by
  the next request. If the first \<open>n\<close> requests all fail, the Fetcher makes exactly these
  and returns absence; if the request \<open>k\<close> is the first to succeed, it makes no request
  after that one and returns its parsed body.
\<close>

theorem fetch_data_with_retries_bounded:
  "1 \<le> n \<Longrightarrow>
   RETRY_DELAY = 3 / 2 \<and>
   requests (log (snd (fetch_data_with_retries env url params n s))) \<le> requests (log s) + nat n \<and>
   (\<forall>errs. (\<forall>j<nat n. net env url params (served s + j) = Failed (errs j)) \<longrightarrow>
      fetch_data_with_retries env url params n s =
        (Inr JNull,
         s\<lparr>served := served s + nat n,
           log := log s @
             concat (map (\<lambda>j. retry_events url params (1 + int j) (errs j)) [0..<nat n - 1]) @
             giving_up_events url params n (errs (nat n - 1))\<rparr>)) \<and>
   (\<forall>k b errs. k < nat n \<and> (\<forall>j<k. net env url params (served s + j) = Failed (errs j)) \<and>
       net env url params (served s + k) = Body b \<longrightarrow>
      fetch_data_with_retries env url params n s =
        (Inr b,
         s\<lparr>served := served s + k + 1,
           log := log s @
             concat (map (\<lambda>j. retry_events url params (1 + int j) (errs j)) [0..<k]) @
             [Get url params]\<rparr>))"
proof -
  assume n: "1 \<le> n"
  have len: "length [1..n] = nat n" using n by simp
  have a: "RETRY_DELAY = 3 / 2" by (simp add: RETRY_DELAY_def)
  have b: "requests (log (snd (fetch_data_with_retries env url params n s))) \<le> requests (log s) + nat n"
    unfolding fetch_data_with_retries_def
    using attempts_requests_le [of env url params n "[1..n]" s] by (simp only: len)
  have c: "fetch_data_with_retries env url params n s =
        (Inr JNull,
         s\<lparr>served := served s + nat n,
           log := log s @
             concat (map (\<lambda>j. retry_events url params (1 + int j) (errs j)) [0..<nat n - 1]) @
             giving_up_events url params n (errs (nat n - 1))\<rparr>)"
    if f: "\<forall>j<nat n. net env url params (served s + j) = Failed (errs j)" for errs
  proof -
    have m1: "Suc (nat (n - 1)) = nat n" using n by simp
    have m: "nat (n - 1) = nat n - 1" "Suc (nat n - 1) = nat n" using n by simp_all
    from f have "\<forall>j<Suc (nat (n - 1)). net env url params (served s + j) = Failed (errs j)"
      by (simp only: m1)
    from attempts_exhausted [OF refl n this] show ?thesis
      unfolding fetch_data_with_retries_def by (simp only: m)
  qed
  have d: "fetch_data_with_retries env url params n s =
        (Inr b,
         s\<lparr>served := served s + k + 1,
           log := log s @
             concat (map (\<lambda>j. retry_events url params (1 + int j) (errs j)) [0..<k]) @
             [Get url params]\<rparr>)"
    if k: "k < nat n" and f: "\<forall>j<k. net env url params (served s + j) = Failed (errs j)"
      and ok: "net env url params (served s + k) = Body b" for k b errs
  proof -
    from k have "k < nat (n - 1 + 1)" by simp
    from attempts_success [OF this f ok] show ?thesis
      unfolding fetch_data_with_retries_def .
  qed
  from a b c d show ?thesis by blast
qed

theorem fetch_data_with_retries_bounded_witness:
  "(1::int) \<le> 3 \<and>
   fetch_data_with_retries (env_of flaky_net) ''u'' [] 3 world0 =
     (Inr (JObj [(''ok'', JBool True)]),
      \<lparr>served = 3,
       log = retry_events ''u'' [] 1 ConnectionError @ retry_events ''u'' [] 2 (HTTPError 503) @
             [Get ''u'' []]\<rparr>) \<and>
   fetch_data_with_retries (env_of down_net) ''u'' [] 3 world0 =
     (Inr JNull,
      \<lparr>served = 3,
       log = retry_events ''u'' [] 1 Timeout @ retry_events ''u'' [] 2 (HTTPError 404) @
             giving_up_events ''u'' [] 3 ConnectionError\<rparr>)"
proof -
  have h: "(1::int) \<le> 3" by simp
  have w0: "served world0 = 0" "log world0 = []" by (simp_all add: world0_def)
  let ?fe = "\<lambda>j::nat. if j = 0 then ConnectionError else HTTPError 503"
  let ?de = "\<lambda>j::nat. if j = 0 then Timeout else if j = 1 then HTTPError 404 else ConnectionError"
  have f2: "\<forall>j<2::nat. net (env_of flaky_net) ''u'' [] (served world0 + j) = Failed (?fe j)"
    by (simp add: env_of_def flaky_net_def w0 less_2_cases_iff)
  have b2: "net (env_of flaky_net) ''u'' [] (served world0 + 2) = Body (JObj [(''ok'', JBool True)])"
    by (simp add: env_of_def flaky_net_def w0)
  have f3: "\<forall>j<nat 3. net (env_of down_net) ''u'' [] (served world0 + j) = Failed (?de j)"
    by (simp add: env_of_def down_net_def w0)
  have k: "(2::nat) < nat 3" by simp
  have u: "[0..<2] = [0, Suc 0]" "nat 3 - 1 = 2" by (simp_all add: upt_rec)
  note A = fetch_data_with_retries_bounded [OF h, of "env_of flaky_net" "''u''" "[]" world0]
  note B = fetch_data_with_retries_bounded [OF h, of "env_of down_net" "''u''" "[]" world0]
  note A4 = A [THEN conjunct2, THEN conjunct2, THEN conjunct2, rule_format,
      where k = 2 and b = "JObj [(''ok'', JBool True)]"
        and errs = "\<lambda>j::nat. if j = 0 then ConnectionError else HTTPError 503",
      OF conjI [OF k conjI [OF f2 b2]]]
  note B3 = B [THEN conjunct2, THEN conjunct2, THEN conjunct1, rule_format,
      where errs = "\<lambda>j::nat. if j = 0 then Timeout else if j = 1 then HTTPError 404
                      else ConnectionError", OF f3 [rule_format]]
  from A4 have
    "fetch_data_with_retries (env_of flaky_net) ''u'' [] 3 world0 =
       (Inr (JObj [(''ok'', JBool True)]),
        world0\<lparr>served := served world0 + 2 + 1,
          log := log world0 @
            concat (map (\<lambda>j. retry_events ''u'' [] (1 + int j) (?fe j)) [0..<2]) @
            [Get ''u'' []]\<rparr>)" .
  moreover from B3 have
    "fetch_data_with_retries (env_of down_net) ''u'' [] 3 world0 =
       (Inr JNull,
        world0\<lparr>served := served world0 + nat 3,
          log := log world0 @
            concat (map (\<lambda>j. retry_events ''u'' [] (1 + int j) (?de j)) [0..<nat 3 - 1]) @
            giving_up_events ''u'' [] 3 (?de (nat 3 - 1))\<rparr>)" .
  ultimately show ?thesis
    unfolding u by (simp add: world0_def)
qed

lemma fetch_no_raise: "\<exists>b. fst (fetch_data_with_retries env url params n s) = Inr b"
  unfolding fetch_data_with_retries_def by (rule attempts_no_raise)

lemma fetch_first_ok:
  assumes "1 \<le> n" and "net env url params (served s) = Body b"
  shows "fetch_data_with_retries env url params n s =
           (Inr b, s\<lparr>served := Suc (served s), log := log s @ [Get url params]\<rparr>)"
proof -
  from assms(1) have u: "[1..n] = 1 # [1 + 1..n]" by (rule upto_rec1)
  show ?thesis
    unfolding fetch_data_with_retries_def u using assms(2) by (simp add: prog_defs)
qed

lemma fetch3_first_ok:
  "net env url params (served s) = Body b \<Longrightarrow>
   fetch_data_with_retries env url params RETRY_ATTEMPTS s =
     (Inr b, s\<lparr>served := Suc (served s), log := log s @ [Get url params]\<rparr>)"
  by (rule fetch_first_ok) (simp_all add: RETRY_ATTEMPTS_def)

section \<open>Properties of the Geocoder\<close>

lemma geocode_None_iff:
  assumes "fetch_data_with_retries env GEOCODE_API_URL (geocode_params city) RETRY_ATTEMPTS s = (Inr body, s1)"
  shows "fst (get_city_coordinates env city s) = Inr None \<longleftrightarrow>
     (\<not> truthy body \<or>
      (\<exists>d. body = JObj d \<and>
        (\<not> truthy (dict_get d ''results'') \<or>
         (\<exists>info rest. dict_get d ''results'' = JArr (JObj info # rest) \<and>
            (dict_get info ''latitude'' = JNull \<or> dict_get info ''longitude'' = JNull)))))"
proof (cases body)
  case (JObj d)
  show ?thesis
  proof (cases "truthy (dict_get d ''results'')")
    case False
    then show ?thesis using assms JObj
      by (simp add: get_city_coordinates_def prog_defs)
  next
    case True
    show ?thesis
    proof (cases "dict_get d ''results''")
      case (JArr xs)
      with True obtain x rest where xs: "xs = x # rest" by (cases xs) auto
      show ?thesis
      proof (cases x)
        case (JObj info)
        then show ?thesis using assms \<open>body = JObj d\<close> JArr xs True
          by (simp add: get_city_coordinates_def prog_defs Let_def)
      qed (use assms \<open>body = JObj d\<close> JArr xs True in
           \<open>simp_all add: get_city_coordinates_def prog_defs Let_def\<close>)
    next
      case (JStr cs)
      with True obtain c rest where "cs = c # rest" by (cases cs) auto
      then show ?thesis using assms \<open>body = JObj d\<close> JStr True
        by (simp add: get_city_coordinates_def prog_defs Let_def)
    qed (use assms JObj True in
           \<open>simp_all add: get_city_coordinates_def prog_defs Let_def\<close>)
  qed
qed (use assms in \<open>simp_all add: get_city_coordinates_def prog_defs\<close>)

lemma geocode_Some:
  assumes "fetch_data_with_retries env GEOCODE_API_URL (geocode_params city) RETRY_ATTEMPTS s = (Inr (JObj d), s1)"
    and "dict_get d ''results'' = JArr (JObj info # rest)"
    and "dict_get info ''latitude'' \<noteq> JNull" and "dict_get info ''longitude'' \<noteq> JNull"
  shows "get_city_coordinates env city s =
      (Inr (Some (dict_get info ''latitude'', dict_get info ''longitude'',
                 if truthy (dict_get info ''name'') then dict_get info ''name'' else JStr city)), s1)"
proof -
  have "d \<noteq> []" using assms(2) by (auto simp: dict_get_def)
  then show ?thesis
    using assms by (simp add: get_city_coordinates_def prog_defs Let_def)
qed


text \<open>
  C3, as the code has it. The Geocoder returns absence exactly when the fetched body is
  falsy (absent or empty), when its \<open>results\<close> are missing or falsy, or when the first
  result lacks latitude or lacks longitude: one of the two missing is enough. When the
  first result is an object that has both, the Geocoder returns them with the name of
  that result, or with the name asked for if the result has no name.
\<close>

theorem get_city_coordinates_absence:
  "fetch_data_with_retries env GEOCODE_API_URL (geocode_params city) RETRY_ATTEMPTS s = (Inr body, s1) \<Longrightarrow>
   (fst (get_city_coordinates env city s) = Inr None \<longleftrightarrow>
     (\<not> truthy body \<or>
      (\<exists>d. body = JObj d \<and>
        (\<not> truthy (dict_get d ''results'') \<or>
         (\<exists>info rest. dict_get d ''results'' = JArr (JObj info # rest) \<and>
            (dict_get info ''latitude'' = JNull \<or> dict_get info ''longitude'' = JNull)))))) \<and>
   (\<forall>d info rest. body = JObj d \<and> dict_get d ''results'' = JArr (JObj info # rest) \<and>
       dict_get info ''latitude'' \<noteq> JNull \<and> dict_get info ''longitude'' \<noteq> JNull \<longrightarrow>
     get_city_coordinates env city s =
       (Inr (Some (dict_get info ''latitude'', dict_get info ''longitude'',
                  if truthy (dict_get info ''name'') then dict_get info ''name'' else JStr city)),
        s1))"
proof -
  assume f: "fetch_data_with_retries env GEOCODE_API_URL (geocode_params city) RETRY_ATTEMPTS s = (Inr body, s1)"
  show ?thesis
  proof (intro conjI allI impI, goal_cases)
    case 1
    show ?case by (rule geocode_None_iff [OF f])
  next
    case (2 d info rest)
    with f show ?case by (intro geocode_Some) auto
  qed
qed

theorem get_city_coordinates_absence_witness:
  "fetch_data_with_retries (env_of paris_net) GEOCODE_API_URL (geocode_params ''Paris'')
     RETRY_ATTEMPTS world0 =
     (Inr (JObj [(''results'', JArr [JObj paris_info])]),
      \<lparr>served = 1, log = [Get GEOCODE_API_URL (geocode_params ''Paris'')]\<rparr>) \<and>
   get_city_coordinates (env_of paris_net) ''Paris'' world0 =
     (Inr (Some (JNum (PFloat (195 / 4)), JNum (PFloat (9 / 4)), JStr ''Paris'')),
      \<lparr>served = 1, log = [Get GEOCODE_API_URL (geocode_params ''Paris'')]\<rparr>) \<and>
   fst (get_city_coordinates (env_of paris_net) ''Paris'' world0) \<noteq> Inr None"
proof -
  have f: "fetch_data_with_retries (env_of paris_net) GEOCODE_API_URL (geocode_params ''Paris'')
     RETRY_ATTEMPTS world0 =
     (Inr (JObj [(''results'', JArr [JObj paris_info])]),
      \<lparr>served = 1, log = [Get GEOCODE_API_URL (geocode_params ''Paris'')]\<rparr>)"
    by (subst fetch3_first_ok [where b = "JObj [(''results'', JArr [JObj paris_info])]"])
       (simp_all add: env_of_def paris_net_def world0_def dict_get_def)
  have r: "dict_get [(''results'', JArr [JObj paris_info])] ''results'' = JArr (JObj paris_info # [])"
    by (simp add: dict_get_def)
  have l: "dict_get paris_info ''latitude'' = JNum (PFloat (195 / 4))"
    "dict_get paris_info ''longitude'' = JNum (PFloat (9 / 4))"
    "dict_get paris_info ''name'' = JStr ''Paris''"
    by (simp_all add: dict_get_def paris_info_def)
  from get_city_coordinates_absence [OF f] r l
  have "get_city_coordinates (env_of paris_net) ''Paris'' world0 =
     (Inr (Some (JNum (PFloat (195 / 4)), JNum (PFloat (9 / 4)), JStr ''Paris'')),
      \<lparr>served = 1, log = [Get GEOCODE_API_URL (geocode_params ''Paris'')]\<rparr>)"
    by simp
  with f show ?thesis by simp
qed

text \<open>
  C3, as stated, fails: a first result that has a latitude and no longitude does not lack
  both, and the Geocoder returns absence for it.
\<close>

theorem get_city_coordinates_counterexample:
  "fst (fetch_data_with_retries (env_of lat_only_net) GEOCODE_API_URL (geocode_params ''Paris'')
          RETRY_ATTEMPTS world0) = Inr (JObj [(''results'', JArr [JObj lat_only_info])]) \<and>
   dict_get lat_only_info ''latitude'' = JNum (PFloat (195 / 4)) \<and>
   fst (get_city_coordinates (env_of lat_only_net) ''Paris'' world0) = Inr None"
proof -
  have f: "fetch_data_with_retries (env_of lat_only_net) GEOCODE_API_URL (geocode_params ''Paris'')
     RETRY_ATTEMPTS world0 =
     (Inr (JObj [(''results'', JArr [JObj lat_only_info])]),
      \<lparr>served = 1, log = [Get GEOCODE_API_URL (geocode_params ''Paris'')]\<rparr>)"
    by (subst fetch3_first_ok [where b = "JObj [(''results'', JArr [JObj lat_only_info])]"])
       (simp_all add: env_of_def lat_only_net_def world0_def)
  have l: "dict_get lat_only_info ''latitude'' = JNum (PFloat (195 / 4))"
    "dict_get lat_only_info ''longitude'' = JNull"
    by (simp_all add: dict_get_def lat_only_info_def)
  have "fst (get_city_coordinates (env_of lat_only_net) ''Paris'' world0) = Inr None"
    unfolding geocode_None_iff [OF f] by (simp add: dict_get_def l [unfolded dict_get_def])
  with f l show ?thesis by simp
qed

section \<open>Properties of the Weather Lookup\<close>

lemma weather_falsy:
  assumes "fetch_data_with_retries env WEATHER_API_URL (weather_params lat lon) RETRY_ATTEMPTS s = (Inr body, s1)"
    and "\<not> truthy body"
  shows "get_current_weather_for_coordinates env lat lon s = (Inr None, s1)"
  using assms by (simp add: get_current_weather_for_coordinates_def prog_defs)

lemma weather_empty_section:
  assumes "fetch_data_with_retries env WEATHER_API_URL (weather_params lat lon) RETRY_ATTEMPTS s = (Inr (JObj d), s1)"
    and "\<not> truthy (dict_get d ''current_weather'')"
  shows "fst (get_current_weather_for_coordinates env lat lon s) = Inr None"
  using assms by (simp add: get_current_weather_for_coordinates_def prog_defs)

text \<open>
  C10. A weather response whose \<open>current_weather\<close> section is an empty mapping gives
  absence, not a reading of absent fields; and a falsy body of the response gives absence
  with nothing more logged, as the absence of the Fetcher does.
\<close>

theorem weather_lookup_falsy_is_absence:
  "fetch_data_with_retries env WEATHER_API_URL (weather_params lat lon) RETRY_ATTEMPTS s = (Inr body, s1) \<Longrightarrow>
   (\<not> truthy body \<longrightarrow> get_current_weather_for_coordinates env lat lon s = (Inr None, s1)) \<and>
   (\<forall>d. body = JObj d \<and> dict_get d ''current_weather'' = JObj [] \<longrightarrow>
      fst (get_current_weather_for_coordinates env lat lon s) = Inr None)"
proof -
  assume f: "fetch_data_with_retries env WEATHER_API_URL (weather_params lat lon) RETRY_ATTEMPTS s = (Inr body, s1)"
  show ?thesis
  proof (intro conjI allI impI, goal_cases)
    case 1
    then show ?case by (rule weather_falsy [OF f])
  next
    case (2 d)
    then have "\<not> truthy (dict_get d ''current_weather'')" by simp
    with f 2 show ?case by (intro weather_empty_section [where d = d]) auto
  qed
qed

theorem weather_lookup_falsy_is_absence_witness:
  "fst (fetch_data_with_retries (env_of empty_section_net) WEATHER_API_URL
          (weather_params (JNum (PFloat 1)) (JNum (PFloat 2))) RETRY_ATTEMPTS world0) =
     Inr (JObj [(''current_weather'', JObj [])]) \<and>
   fst (get_current_weather_for_coordinates (env_of empty_section_net) (JNum (PFloat 1)) (JNum (PFloat 2)) world0) =
     Inr None \<and>
   fst (fetch_data_with_retries (env_of empty_body_net) WEATHER_API_URL
          (weather_params (JNum (PFloat 1)) (JNum (PFloat 2))) RETRY_ATTEMPTS world0) = Inr (JObj []) \<and>
   \<not> truthy (JObj []) \<and>
   get_current_weather_for_coordinates (env_of empty_body_net) (JNum (PFloat 1)) (JNum (PFloat 2)) world0 =
     (Inr None, \<lparr>served = 1, log = [Get WEATHER_API_URL (weather_params (JNum (PFloat 1)) (JNum (PFloat 2)))]\<rparr>)"
proof -
  have f1: "fetch_data_with_retries (env_of empty_section_net) WEATHER_API_URL
          (weather_params (JNum (PFloat 1)) (JNum (PFloat 2))) RETRY_ATTEMPTS world0 =
     (Inr (JObj [(''current_weather'', JObj [])]),
      \<lparr>served = 1, log = [Get WEATHER_API_URL (weather_params (JNum (PFloat 1)) (JNum (PFloat 2)))]\<rparr>)"
    by (subst fetch3_first_ok [where b = "JObj [(''current_weather'', JObj [])]"])
       (simp_all add: env_of_def empty_section_net_def world0_def)
  have f2: "fetch_data_with_retries (env_of empty_body_net) WEATHER_API_URL
          (weather_params (JNum (PFloat 1)) (JNum (PFloat 2))) RETRY_ATTEMPTS world0 =
     (Inr (JObj []),
      \<lparr>served = 1, log = [Get WEATHER_API_URL (weather_params (JNum (PFloat 1)) (JNum (PFloat 2)))]\<rparr>)"
    by (subst fetch3_first_ok [where b = "JObj []"])
       (simp_all add: env_of_def empty_body_net_def world0_def)
  have d: "dict_get [(''current_weather'', JObj [])] ''current_weather'' = JObj []"
    by (simp add: dict_get_def)
  have n: "\<not> truthy (JObj [])" by simp
  from weather_lookup_falsy_is_absence [OF f1] d
  have a: "fst (get_current_weather_for_coordinates (env_of empty_section_net) (JNum (PFloat 1)) (JNum (PFloat 2)) world0) =
     Inr None" by blast
  from weather_lookup_falsy_is_absence [OF f2] n
  have b: "get_current_weather_for_coordinates (env_of empty_body_net) (JNum (PFloat 1)) (JNum (PFloat 2)) world0 =
     (Inr None, \<lparr>served = 1, log = [Get WEATHER_API_URL (weather_params (JNum (PFloat 1)) (JNum (PFloat 2)))]\<rparr>)"
    by blast
  from f1 f2 a b n show ?thesis by simp
qed

section \<open>Properties of the Pipeline Orchestrator\<close>

subsection \<open>What a part of the program adds to the log\<close>

lemma emits_ret: "emits P (ret x)"
  by (simp add: emits_def ret_def)

lemma emits_raise: "emits P (raise e)"
  by (simp add: emits_def raise_def)

lemma emits_lift: "emits P (lift r)"
  by (simp add: emits_def lift_def)

lemma emits_emit: "P e \<Longrightarrow> emits P (emit e)"
  by (simp add: emits_def emit_def)

lemma emits_py_print: "P (Stdout ps) \<Longrightarrow> emits P (py_print ps)"
  by (simp add: py_print_def emits_emit)

lemma emits_eprint: "P (Stderr ps) \<Longrightarrow> emits P (eprint ps)"
  by (simp add: eprint_def emits_emit)

lemma emits_sleep: "P (Sleep d) \<Longrightarrow> emits P (sleep d)"
  by (simp add: sleep_def emits_emit)

lemma emits_http_get: "P (Get url params) \<Longrightarrow> emits P (http_get env url params)"
  by (simp add: emits_def http_get_def)

lemma emits_andthen:
  assumes "emits P m" and "\<And>x. emits P (f x)"
  shows "emits P (andthen m f)"
  unfolding emits_def
proof
  fix s
  from assms(1) obtain evs where m: "log (snd (m s)) = log s @ evs" "list_all P evs"
    unfolding emits_def by blast
  show "\<exists>evs. log (snd (andthen m f s)) = log s @ evs \<and> list_all P evs"
  proof (cases "m s")
    case (Pair r s1)
    show ?thesis
    proof (cases r)
      case (Inl e)
      with Pair m show ?thesis by (auto simp: andthen_def)
    next
      case (Inr x)
      from assms(2) [of x] obtain evs' where
        f: "log (snd (f x s1)) = log s1 @ evs'" "list_all P evs'"
        unfolding emits_def by blast
      with Pair Inr m have "log (snd (andthen m f s)) = log s @ (evs @ evs')"
        by (simp add: andthen_def)
      moreover have "list_all P (evs @ evs')" using m f by simp
      ultimately show ?thesis by blast
    qed
  qed
qed

lemma quiet_simps [simp]:
  "quiet (Get url params)" "quiet (Stdout ps)" "quiet (Stderr ps)" "quiet (Sleep RETRY_DELAY)"
  "\<not> quiet (Write f d)" "\<not> quiet (Sleep (1 / 2))"
  by (simp_all add: quiet_def is_write_def RETRY_DELAY_def)

lemma emits_attempts: "emits quiet (attempts env url params n as)"
proof (induction as)
  case Nil
  show ?case by (simp add: emits_ret)
next
  case (Cons a as)
  show ?case
    by (auto simp: Cons intro!: emits_andthen emits_http_get emits_ret emits_eprint emits_sleep
        split: http_result.splits)
qed

lemma emits_fetch: "emits quiet (fetch_data_with_retries env url params n)"
  unfolding fetch_data_with_retries_def by (rule emits_attempts)

lemma emits_get_city_coordinates: "emits quiet (get_city_coordinates env city)"
  unfolding get_city_coordinates_def Let_def
  by (auto intro!: emits_andthen emits_fetch emits_ret emits_eprint emits_lift)

lemma emits_get_current_weather: "emits quiet (get_current_weather_for_coordinates env lat lon)"
  unfolding get_current_weather_for_coordinates_def
  by (auto intro!: emits_andthen emits_fetch emits_ret emits_eprint emits_lift)

lemma emits_lookup_city: "emits quiet (lookup_city env city)"
  unfolding lookup_city_def
  by (auto intro!: emits_andthen emits_get_city_coordinates emits_get_current_weather
        emits_ret emits_py_print split: option.splits)

lemma pauses_append: "pauses (xs @ ys) = pauses xs + pauses ys"
  by (induction xs) (simp_all add: pauses_def)

lemma writes_append: "writes (xs @ ys) = writes xs @ writes ys"
  by (simp add: writes_def)

lemma quiet_pauses: "list_all quiet evs \<Longrightarrow> pauses evs = 0"
  by (induction evs) (auto simp: pauses_def quiet_def)

lemma emits_quiet_pauses: "emits quiet m \<Longrightarrow> pauses (log (snd (m s))) = pauses (log s)"
  unfolding emits_def by (metis pauses_append quiet_pauses add.right_neutral)

subsection \<open>The loop over the cities\<close>

lemma record_city_hashable:
  "hashable city_name = Inr key \<Longrightarrow>
   record_city city_name weather acc s =
     (Inr (AList.update key
             (City \<lparr>entry_temperature = temperature weather,
                    entry_windspeed = windspeed weather,
                    entry_winddirection = winddirection weather,
                    entry_timestamp = timestamp weather\<rparr>) (fst acc),
           if temperature weather \<noteq> JNull then snd acc @ [temperature weather] else snd acc),
      snd (sleep (1 / 2) s))"
  by (simp add: record_city_def prog_defs Let_def)

lemma record_city_unhashable:
  "hashable city_name = Inl e \<Longrightarrow> record_city city_name weather acc s = (Inl e, s)"
  by (simp add: record_city_def prog_defs)

lemma pauses_sleep_half: "pauses (log (snd (sleep (1 / 2) s))) = Suc (pauses (log s))"
  by (simp add: sleep_def emit_def pauses_append) (simp add: pauses_def)

lemma cities_loop_pauses:
  "pauses (log (snd (cities_loop env cities acc s))) =
     pauses (log s) + length (fetched_keys (fetched env cities s))"
proof (induction cities arbitrary: acc s)
  case Nil
  show ?case by (simp add: ret_def fetched_keys_def)
next
  case (Cons city rest)
  obtain r s1 where l: "lookup_city env city s = (r, s1)" by (cases "lookup_city env city s")
  have p: "pauses (log s1) = pauses (log s)"
    using emits_quiet_pauses [OF emits_lookup_city, of env city s] l by simp
  show ?case
  proof (cases r)
    case (Inl e)
    with l p show ?thesis by (simp add: andthen_def fetched_keys_def)
  next
    case (Inr found)
    show ?thesis
    proof (cases found)
      case None
      with l p Inr Cons.IH [of acc s1] show ?thesis by (simp add: andthen_def)
    next
      case (Some nw)
      obtain city_name weather where nw: "nw = (city_name, weather)" by (cases nw)
      show ?thesis
      proof (cases "hashable city_name")
        case (Inl e)
        with l p Inr Some nw show ?thesis
          by (simp add: andthen_def record_city_unhashable fetched_keys_def)
      next
        case (Inr key)
        from Cons.IH [of _ "snd (sleep (1 / 2) s1)"] l p \<open>r = Inr found\<close> Some nw Inr
        show ?thesis
          by (simp add: andthen_def record_city_hashable fetched_keys_def pauses_sleep_half)
      qed
    qed
  qed
qed

lemma cities_loop_keys:
  "\<lbrakk>cities_loop env cities acc s = (Inr acc', s'); distinct (map fst (fst acc))\<rbrakk> \<Longrightarrow>
   distinct (map fst (fst acc')) \<and>
   set (map fst (fst acc')) = set (map fst (fst acc)) \<union> set (fetched_keys (fetched env cities s))"
proof (induction cities arbitrary: acc s)
  case Nil
  then show ?case by (simp add: ret_def fetched_keys_def)
next
  case (Cons city rest)
  obtain r s1 where l: "lookup_city env city s = (r, s1)" by (cases "lookup_city env city s")
  show ?case
  proof (cases r)
    case (Inl e)
    with l Cons.prems show ?thesis by (simp add: andthen_def)
  next
    case (Inr found)
    show ?thesis
    proof (cases found)
      case None
      with l Inr Cons.prems have "cities_loop env rest acc s1 = (Inr acc', s')"
        by (simp add: andthen_def)
      from Cons.IH [OF this Cons.prems(2)] l Inr None show ?thesis by simp
    next
      case (Some nw)
      obtain city_name weather where nw: "nw = (city_name, weather)" by (cases nw)
      show ?thesis
      proof (cases "hashable city_name")
        case (Inl e)
        with l \<open>r = Inr found\<close> Some nw Cons.prems show ?thesis
          by (simp add: andthen_def record_city_unhashable)
      next
        case (Inr key)
        let ?acc1 = "(AList.update key
             (City \<lparr>entry_temperature = temperature weather,
                    entry_windspeed = windspeed weather,
                    entry_winddirection = winddirection weather,
                    entry_timestamp = timestamp weather\<rparr>) (fst acc),
           if temperature weather \<noteq> JNull then snd acc @ [temperature weather] else snd acc)"
        have run: "cities_loop env rest ?acc1 (snd (sleep (1 / 2) s1)) = (Inr acc', s')"
          using l \<open>r = Inr found\<close> Some nw Inr Cons.prems(1)
          by (simp add: andthen_def record_city_hashable)
        have d: "distinct (map fst (fst ?acc1))"
          using Cons.prems(2) by (simp add: distinct_update)
        have k: "set (map fst (fst ?acc1)) = insert key (set (map fst (fst acc)))"
          by (simp add: dom_update)
        from Cons.IH [OF run d] l \<open>r = Inr found\<close> Some nw Inr k show ?thesis
          by (simp add: fetched_keys_def)
      qed
    qed
  qed
qed

lemma cities_loop_temperatures:
  "cities_loop env cities acc s = (Inr acc', s') \<Longrightarrow>
   snd acc' = snd acc @ fetched_temperatures (fetched env cities s)"
proof (induction cities arbitrary: acc s)
  case Nil
  then show ?case by (simp add: ret_def fetched_temperatures_def)
next
  case (Cons city rest)
  obtain r s1 where l: "lookup_city env city s = (r, s1)" by (cases "lookup_city env city s")
  show ?case
  proof (cases r)
    case (Inl e)
    with l Cons.prems show ?thesis by (simp add: andthen_def)
  next
    case (Inr found)
    show ?thesis
    proof (cases found)
      case None
      with l Inr Cons.prems have "cities_loop env rest acc s1 = (Inr acc', s')"
        by (simp add: andthen_def)
      from Cons.IH [OF this] l Inr None show ?thesis by simp
    next
      case (Some nw)
      obtain city_name weather where nw: "nw = (city_name, weather)" by (cases nw)
      show ?thesis
      proof (cases "hashable city_name")
        case (Inl e)
        with l \<open>r = Inr found\<close> Some nw Cons.prems show ?thesis
          by (simp add: andthen_def record_city_unhashable)
      next
        case (Inr key)
        let ?acc1 = "(AList.update key
             (City \<lparr>entry_temperature = temperature weather,
                    entry_windspeed = windspeed weather,
                    entry_winddirection = winddirection weather,
                    entry_timestamp = timestamp weather\<rparr>) (fst acc),
           if temperature weather \<noteq> JNull then snd acc @ [temperature weather] else snd acc)"
        have run: "cities_loop env rest ?acc1 (snd (sleep (1 / 2) s1)) = (Inr acc', s')"
          using l \<open>r = Inr found\<close> Some nw Inr Cons.prems(1)
          by (simp add: andthen_def record_city_hashable)
        from Cons.IH [OF run] l \<open>r = Inr found\<close> Some nw Inr show ?thesis
          by (simp add: fetched_temperatures_def)
      qed
    qed
  qed
qed

lemma lookup_city_log:
  "log (snd (lookup_city env city s)) = log s @ city_events env city s \<and>
   Sleep (1 / 2) \<notin> set (city_events env city s)"
proof -
  from emits_lookup_city [of env city] obtain evs where
    e: "log (snd (lookup_city env city s)) = log s @ evs" and q: "list_all quiet evs"
    unfolding emits_def by blast
  from e have c: "city_events env city s = evs" by (simp add: city_events_def)
  from q have "Sleep (1 / 2) \<notin> set evs" by (auto simp: list_all_iff quiet_def)
  with e c show ?thesis by simp
qed

lemma cities_loop_log:
  "log (snd (cities_loop env cities acc s)) = log s @ loop_log env cities s"
proof (induction cities arbitrary: acc s)
  case Nil
  show ?case by (simp add: ret_def)
next
  case (Cons city rest)
  obtain r s1 where l: "lookup_city env city s = (r, s1)" by (cases "lookup_city env city s")
  have p: "log s1 = log s @ city_events env city s"
    using lookup_city_log [of env city s] l by simp
  show ?case
  proof (cases r)
    case (Inl e)
    with l p show ?thesis by (simp add: andthen_def)
  next
    case (Inr found)
    show ?thesis
    proof (cases found)
      case None
      with l p Inr Cons.IH [of acc s1] show ?thesis by (simp add: andthen_def)
    next
      case (Some nw)
      obtain city_name weather where nw: "nw = (city_name, weather)" by (cases nw)
      show ?thesis
      proof (cases "hashable city_name")
        case (Inl e)
        with l p Inr Some nw show ?thesis
          by (simp add: andthen_def record_city_unhashable)
      next
        case (Inr key)
        have h: "log (snd (sleep (1 / 2) s1)) = log s @ city_events env city s @ [Sleep (1 / 2)]"
          using p by (simp add: sleep_def emit_def)
        from Cons.IH [of _ "snd (sleep (1 / 2) s1)"] l \<open>r = Inr found\<close> Some nw Inr
        show ?thesis
          by (simp add: andthen_def record_city_hashable h)
      qed
    qed
  qed
qed

subsection \<open>Parts that raise nothing\<close>

lemma returns_ret: "returns (ret x)"
  by (simp add: returns_def ret_def)

lemma returns_emit: "returns (emit e)"
  by (simp add: returns_def emit_def)

lemma returns_py_print: "returns (py_print ps)"
  by (simp add: py_print_def returns_emit)

lemma returns_eprint: "returns (eprint ps)"
  by (simp add: eprint_def returns_emit)

lemma returns_andthen:
  assumes "returns m" and "\<And>x. returns (f x)"
  shows "returns (andthen m f)"
  unfolding returns_def
proof
  fix s
  from assms(1) obtain x where "fst (m s) = Inr x" unfolding returns_def by blast
  then obtain s1 where m: "m s = (Inr x, s1)" by (cases "m s") simp
  from assms(2) [of x] obtain y where "fst (f x s1) = Inr y" unfolding returns_def by blast
  with m show "\<exists>y. fst (andthen m f s) = Inr y" by (simp add: andthen_def)
qed

lemma returns_unit: "returns m \<Longrightarrow> fst (m s) = Inr ()"
  unfolding returns_def by (metis old.unit.exhaust)

lemma returns_print_cities: "returns (print_cities data)"
  by (induction data) (auto intro!: returns_andthen returns_ret returns_py_print)

lemma emits_print_cities: "emits quiet (print_cities data)"
  by (induction data) (auto intro!: emits_andthen emits_ret emits_py_print)

lemma emits_print_weather_summary: "emits quiet (print_weather_summary data)"
  unfolding print_weather_summary_def
  by (auto intro!: emits_andthen emits_ret emits_py_print emits_print_cities split: option.splits)

lemma returns_print_weather_summary: "returns (print_weather_summary data)"
  unfolding print_weather_summary_def
  by (auto intro!: returns_andthen returns_ret returns_py_print returns_print_cities
      split: option.splits)

lemma save_to_json_ok: "returns (save_to_json env file_path data)"
  unfolding save_to_json_def
  by (auto intro!: returns_andthen returns_emit returns_py_print returns_eprint)

lemma process_result:
  assumes "cities_loop env cities ([], []) s = (Inr acc, s1)"
    and "those (map num_of (snd acc)) = Some ts"
    and "compute_weather_stats (python env) ts = Inr st"
  shows "fst (process_weather_for_cities env cities ''json'' out s) =
           Inr (AList.update (KStr ''stats'') (Summary st) (fst acc))"
proof -
  let ?r = "AList.update (KStr ''stats'') (Summary st) (fst acc)"
  obtain s2 where j: "save_to_json env (or_default out DEFAULT_JSON_OUTPUT) ?r s1 = (Inr (), s2)"
    using returns_unit [OF save_to_json_ok, of env "or_default out DEFAULT_JSON_OUTPUT" ?r s1]
    by (cases "save_to_json env (or_default out DEFAULT_JSON_OUTPUT) ?r s1") simp
  obtain s3 where p: "print_weather_summary ?r s2 = (Inr (), s3)"
    using returns_unit [OF returns_print_weather_summary, of ?r s2]
    by (cases "print_weather_summary ?r s2") simp
  show ?thesis
    using assms j p
    by (simp add: process_weather_for_cities_def andthen_def call_compute_weather_stats_def
        ret_def lift_def Let_def)
qed

lemma process_Inr_D:
  assumes "fst (process_weather_for_cities env cities fmt out s) = Inr r"
  shows "\<exists>acc s1 ts st. cities_loop env cities ([], []) s = (Inr acc, s1) \<and>
           those (map num_of (snd acc)) = Some ts \<and>
           compute_weather_stats (python env) ts = Inr st \<and> fmt = ''json'' \<and>
           r = AList.update (KStr ''stats'') (Summary st) (fst acc)"
proof -
  obtain q s1 where l: "cities_loop env cities ([], []) s = (q, s1)"
    by (cases "cities_loop env cities ([], []) s")
  show ?thesis
  proof (cases q)
    case (Inl e)
    with l assms show ?thesis by (simp add: process_weather_for_cities_def andthen_def)
  next
    case (Inr acc)
    show ?thesis
    proof (cases "those (map num_of (snd acc))")
      case None
      with l Inr assms show ?thesis
        by (simp add: process_weather_for_cities_def andthen_def call_compute_weather_stats_def
            raise_def)
    next
      case (Some ts)
      show ?thesis
      proof (cases "compute_weather_stats (python env) ts")
        case (Inl e)
        with l \<open>q = Inr acc\<close> Some assms show ?thesis
          by (simp add: process_weather_for_cities_def andthen_def
              call_compute_weather_stats_def lift_def)
      next
        case c: (Inr st)
        have f: "fmt = ''json''"
        proof (rule ccontr)
          assume "fmt \<noteq> ''json''"
          with l \<open>q = Inr acc\<close> Some c assms show False
            by (simp add: process_weather_for_cities_def andthen_def
                call_compute_weather_stats_def raise_def lift_def Let_def)
        qed
        from process_result [OF l [unfolded \<open>q = Inr acc\<close>] Some c, of out] assms f l
          \<open>q = Inr acc\<close> Some c
        show ?thesis by simp
      qed
    qed
  qed
qed

subsection \<open>The example network\<close>

lemma urls_differ: "WEATHER_API_URL \<noteq> GEOCODE_API_URL"
  by (simp add: WEATHER_API_URL_def GEOCODE_API_URL_def)

lemma paris_geocode:
  assumes "net env = paris_net"
  shows "get_city_coordinates env ''Paris'' s =
     (Inr (Some (JNum (PFloat (195 / 4)), JNum (PFloat (9 / 4)), JStr ''Paris'')),
      s\<lparr>served := Suc (served s), log := log s @ [Get GEOCODE_API_URL (geocode_params ''Paris'')]\<rparr>)"
proof -
  have f: "fetch_data_with_retries env GEOCODE_API_URL (geocode_params ''Paris'')
     RETRY_ATTEMPTS s =
     (Inr (JObj [(''results'', JArr [JObj paris_info])]),
      s\<lparr>served := Suc (served s), log := log s @ [Get GEOCODE_API_URL (geocode_params ''Paris'')]\<rparr>)"
    by (rule fetch3_first_ok) (simp add: assms paris_net_def dict_get_def)
  have r: "dict_get [(''results'', JArr [JObj paris_info])] ''results'' = JArr (JObj paris_info # [])"
    by (simp add: dict_get_def)
  have l: "dict_get paris_info ''latitude'' = JNum (PFloat (195 / 4))"
    "dict_get paris_info ''longitude'' = JNum (PFloat (9 / 4))"
    "dict_get paris_info ''name'' = JStr ''Paris''"
    by (simp_all add: dict_get_def paris_info_def)
  from geocode_Some [OF f r] l show ?thesis by simp
qed

lemma unknown_geocode:
  assumes "net env = paris_net" and "city \<noteq> ''Paris''"
  shows "get_city_coordinates env city s =
     (Inr None,
      s\<lparr>served := Suc (served s),
        log := log s @ [Get GEOCODE_API_URL (geocode_params city),
                        Stderr [Text (''[warning] geocoding data not found for '' @ [CHR 0x27]),
                                Text city, Text ([CHR 0x27] @ ''.'')]]\<rparr>)"
proof -
  have f: "fetch_data_with_retries env GEOCODE_API_URL (geocode_params city)
     RETRY_ATTEMPTS s =
     (Inr (JObj [(''generationtime_ms'', JNum (PFloat 1))]),
      s\<lparr>served := Suc (served s), log := log s @ [Get GEOCODE_API_URL (geocode_params city)]\<rparr>)"
    by (rule fetch3_first_ok) (simp add: assms paris_net_def dict_get_def)
  show ?thesis
    by (simp add: get_city_coordinates_def andthen_def f) (simp add: prog_defs dict_get_def)
qed

lemma paris_weather_lookup:
  assumes "net env = paris_net"
  shows "get_current_weather_for_coordinates env lat lon s =
     (Inr (Some paris_reading),
      s\<lparr>served := Suc (served s), log := log s @ [Get WEATHER_API_URL (weather_params lat lon)]\<rparr>)"
proof -
  have f: "fetch_data_with_retries env WEATHER_API_URL (weather_params lat lon)
     RETRY_ATTEMPTS s =
     (Inr (JObj [(''current_weather'', JObj paris_weather)]),
      s\<lparr>served := Suc (served s), log := log s @ [Get WEATHER_API_URL (weather_params lat lon)]\<rparr>)"
    by (rule fetch3_first_ok) (simp add: assms paris_net_def urls_differ)
  show ?thesis
    by (simp add: get_current_weather_for_coordinates_def andthen_def f)
       (simp add: prog_defs dict_get_def paris_weather_def paris_reading_def)
qed

lemma paris_lookup:
  assumes "net env = paris_net"
  shows "lookup_city env ''Paris'' s =
     (Inr (Some (JStr ''Paris'', paris_reading)),
      s\<lparr>served := Suc (Suc (served s)),
        log := log s @ [Stdout [Text ''[info] Fetching data for '', Text ''Paris'', Text ''...''],
                        Get GEOCODE_API_URL (geocode_params ''Paris''),
                        Get WEATHER_API_URL
                          (weather_params (JNum (PFloat (195 / 4))) (JNum (PFloat (9 / 4))))]\<rparr>)"
  by (simp add: lookup_city_def andthen_def py_print_def emit_def paris_geocode [OF assms]
      paris_weather_lookup [OF assms] ret_def)

lemma unknown_lookup:
  assumes "net env = paris_net" and "city \<noteq> ''Paris''"
  shows "lookup_city env city s =
     (Inr None,
      s\<lparr>served := Suc (served s),
        log := log s @ [Stdout [Text ''[info] Fetching data for '', Text city, Text ''...''],
                        Get GEOCODE_API_URL (geocode_params city),
                        Stderr [Text (''[warning] geocoding data not found for '' @ [CHR 0x27]),
                                Text city, Text ([CHR 0x27] @ ''.'')],
                        Stdout [Text ''[warn] Skipping '', Text city,
                                Text '' due to geocoding issues.'']]\<rparr>)"
  by (simp add: lookup_city_def andthen_def py_print_def emit_def unknown_geocode [OF assms]
      ret_def)

lemma paris_twice_loop:
  assumes "net env = paris_net"
  shows "fst (cities_loop env [''Paris'', ''Paris''] ([], []) s) =
           Inr ([(KStr ''Paris'', paris_entry)], [JNum (PFloat 10), JNum (PFloat 10)])"
  by (simp add: andthen_def paris_lookup [OF assms] record_city_hashable ret_def
      paris_reading_def paris_entry_def)

lemma paris_twice_fetched:
  assumes "net env = paris_net"
  shows "fetched env [''Paris'', ''Paris''] s =
           [(JStr ''Paris'', paris_reading), (JStr ''Paris'', paris_reading)]"
  by (simp add: paris_lookup [OF assms])

lemma unknown_twice_fetched:
  assumes "net env = paris_net"
  shows "fetched env [''Atlantis'', ''Lemuria''] s = []"
  by (simp add: unknown_lookup [OF assms])

lemma stats_10_10:
  "compute_weather_stats exact_runtime [PFloat 10, PFloat 10] =
     Inr \<lparr>stat_min = Some (PFloat 10), stat_max = Some (PFloat 10),
          stat_average = Some (PFloat 10)\<rparr>"
  by (simp add: compute_weather_stats_def exact_runtime_def exact_sum_def within_doubles py_lt_def)

subsection \<open>Keys and pauses of a run\<close>

lemma process_unsaved:
  assumes "cities_loop env cities ([], []) s = (Inr acc, s1)"
    and "those (map num_of (snd acc)) = Some ts"
    and "compute_weather_stats (python env) ts = Inr st" and "fmt \<noteq> ''json''"
  shows "process_weather_for_cities env cities fmt out s = (Inl (NameError ''save_to_csv''), s1)"
  using assms
  by (simp add: process_weather_for_cities_def andthen_def call_compute_weather_stats_def
      lift_def raise_def Let_def)

lemma andthen_snd:
  "m s = (Inr x, s1) \<Longrightarrow> snd (andthen m f s) = snd (f x s1)"
  "m s = (Inl e, s1) \<Longrightarrow> snd (andthen m f s) = s1"
  by (simp_all add: andthen_def)

lemma emits_mono: "emits P m \<Longrightarrow> (\<And>e. P e \<Longrightarrow> Q e) \<Longrightarrow> emits Q m"
  unfolding emits_def by (metis (mono_tags, lifting) list_all_iff)

lemma emits_no_pause: "emits no_pause m \<Longrightarrow> pauses (log (snd (m s))) = pauses (log s)"
proof -
  have z: "list_all no_pause evs \<Longrightarrow> pauses evs = 0" for evs
    by (induction evs) (auto simp: pauses_def no_pause_def)
  assume "emits no_pause m"
  then obtain evs where "log (snd (m s)) = log s @ evs" "list_all no_pause evs"
    unfolding emits_def by blast
  then show ?thesis by (simp add: pauses_append z)
qed

lemma emits_save_to_json: "emits no_pause (save_to_json env file_path data)"
  unfolding save_to_json_def
  by (auto intro!: emits_andthen emits_emit emits_py_print emits_eprint simp: no_pause_def)

lemma emits_after_loop:
  "emits no_pause
     (andthen (call_compute_weather_stats env (snd acc)) (\<lambda>stats.
      let weather_results = AList.update (KStr ''stats'') (Summary stats) (fst acc) in
      andthen (if fmt = ''json''
               then save_to_json env (or_default out DEFAULT_JSON_OUTPUT) weather_results
               else raise (NameError ''save_to_csv'')) (\<lambda>_.
      andthen (print_weather_summary weather_results) (\<lambda>_.
      ret weather_results))))"
proof -
  have q: "emits no_pause (print_weather_summary d)" for d
    by (rule emits_mono [OF emits_print_weather_summary]) (simp add: quiet_def no_pause_def)
  show ?thesis
    unfolding call_compute_weather_stats_def Let_def
    by (auto intro!: emits_andthen emits_ret emits_raise emits_lift emits_save_to_json q
        split: option.splits)
qed

lemma process_pauses_loop:
  "pauses (log (snd (process_weather_for_cities env cities fmt out s))) =
     pauses (log (snd (cities_loop env cities ([], []) s)))"
proof -
  obtain q s1 where l: "cities_loop env cities ([], []) s = (q, s1)"
    by (cases "cities_loop env cities ([], []) s")
  show ?thesis
  proof (cases q)
    case (Inl e)
    with l show ?thesis
      unfolding process_weather_for_cities_def by (simp add: andthen_snd)
  next
    case (Inr acc)
    with l have r: "cities_loop env cities ([], []) s = (Inr acc, s1)" by simp
    have "snd (cities_loop env cities ([], []) s) = s1" by (simp add: r)
    with r show ?thesis
      unfolding process_weather_for_cities_def
      by (simp only: andthen_snd emits_no_pause [OF emits_after_loop])
  qed
qed

lemma process_log:
  "\<exists>evs. log (snd (process_weather_for_cities env cities fmt out s)) =
           log s @ loop_log env cities s @ evs \<and> Sleep (1 / 2) \<notin> set evs"
proof -
  obtain q s1 where l: "cities_loop env cities ([], []) s = (q, s1)"
    by (cases "cities_loop env cities ([], []) s")
  have p: "log s1 = log s @ loop_log env cities s"
    using cities_loop_log [of env cities "([], [])" s] l by simp
  show ?thesis
  proof (cases q)
    case (Inl e)
    with l have "snd (process_weather_for_cities env cities fmt out s) = s1"
      unfolding process_weather_for_cities_def by (simp add: andthen_snd)
    with p show ?thesis by simp
  next
    case (Inr acc)
    with l have r: "cities_loop env cities ([], []) s = (Inr acc, s1)" by simp
    let ?tail = "andthen (call_compute_weather_stats env (snd acc)) (\<lambda>stats.
      let weather_results = AList.update (KStr ''stats'') (Summary stats) (fst acc) in
      andthen (if fmt = ''json''
               then save_to_json env (or_default out DEFAULT_JSON_OUTPUT) weather_results
               else raise (NameError ''save_to_csv'')) (\<lambda>_.
      andthen (print_weather_summary weather_results) (\<lambda>_.
      ret weather_results)))"
    from emits_after_loop [of env acc fmt out] obtain evs where
      e: "log (snd (?tail s1)) = log s1 @ evs" and n: "list_all no_pause evs"
      unfolding emits_def by blast
    have "snd (process_weather_for_cities env cities fmt out s) = snd (?tail s1)"
      unfolding process_weather_for_cities_def using r by (simp only: andthen_snd)
    with e p have "log (snd (process_weather_for_cities env cities fmt out s)) =
        log s @ loop_log env cities s @ evs" by simp
    moreover from n have "Sleep (1 / 2) \<notin> set evs"
      by (auto simp: list_all_iff no_pause_def)
    ultimately show ?thesis by blast
  qed
qed

text \<open>
  C2, as the code has it. The mapping that the Orchestrator returns has the key
  \<^verbatim>\<open>"stats"\<close>, bound to the statistics summary of the temperatures collected from the
  fetched cities, and besides it exactly the names that the resolved and fetched cities
  resolved to: cities that resolve to the same name share one entry, and a city that
  resolves to \<^verbatim>\<open>"stats"\<close> has none. The number of keys is 1 plus the number of distinct
  such names other than \<^verbatim>\<open>"stats"\<close>.
\<close>

theorem process_weather_for_cities_keys:
  "fst (process_weather_for_cities env cities fmt out s) = Inr r \<Longrightarrow>
   distinct (map fst r) \<and>
   set (map fst r) = insert (KStr ''stats'') (set (fetched_keys (fetched env cities s))) \<and>
   length r = 1 + card (set (fetched_keys (fetched env cities s)) - {KStr ''stats''}) \<and>
   (\<exists>ts st. those (map num_of (fetched_temperatures (fetched env cities s))) = Some ts \<and>
      compute_weather_stats (python env) ts = Inr st \<and>
      map_of r (KStr ''stats'') = Some (Summary st))"
proof -
  assume "fst (process_weather_for_cities env cities fmt out s) = Inr r"
  from process_Inr_D [OF this] obtain acc s1 ts st where
    l: "cities_loop env cities ([], []) s = (Inr acc, s1)" and
    t: "those (map num_of (snd acc)) = Some ts" and
    c: "compute_weather_stats (python env) ts = Inr st" and
    r: "r = AList.update (KStr ''stats'') (Summary st) (fst acc)"
    by blast
  let ?K = "set (fetched_keys (fetched env cities s))"
  from cities_loop_keys [OF l] have d: "distinct (map fst (fst acc))"
    and k: "set (map fst (fst acc)) = ?K" by simp_all
  from cities_loop_temperatures [OF l]
  have ft: "snd acc = fetched_temperatures (fetched env cities s)" by simp
  have d': "distinct (map fst r)" unfolding r using d by (rule distinct_update)
  have k': "set (map fst r) = insert (KStr ''stats'') ?K"
    unfolding r using k by (simp add: dom_update)
  have i: "insert (KStr ''stats'') ?K = insert (KStr ''stats'') (?K - {KStr ''stats''})"
    by auto
  have "card (insert (KStr ''stats'') (?K - {KStr ''stats''})) = Suc (card (?K - {KStr ''stats''}))"
    by (rule card_insert_disjoint) auto
  with i have "card (insert (KStr ''stats'') ?K) = 1 + card (?K - {KStr ''stats''})"
    by simp
  moreover have "length r = card (set (map fst r))"
    using distinct_card [OF d'] by simp
  ultimately have n: "length r = 1 + card (?K - {KStr ''stats''})"
    unfolding k' by simp
  have m: "map_of r (KStr ''stats'') = Some (Summary st)"
    unfolding r by (simp add: update_conv')
  from t ft have "those (map num_of (fetched_temperatures (fetched env cities s))) = Some ts"
    by simp
  with c m have "\<exists>ts st. those (map num_of (fetched_temperatures (fetched env cities s))) = Some ts \<and>
      compute_weather_stats (python env) ts = Inr st \<and>
      map_of r (KStr ''stats'') = Some (Summary st)" by blast
  with d' k' n show ?thesis by blast
qed

lemma paris_twice_process:
  "fst (process_weather_for_cities (env_of paris_net) [''Paris'', ''Paris''] ''json'' None world0) =
     Inr paris_twice_result"
proof -
  have n: "net (env_of paris_net) = paris_net" by (simp add: env_of_def)
  obtain s1 where l: "cities_loop (env_of paris_net) [''Paris'', ''Paris''] ([], []) world0 =
      (Inr ([(KStr ''Paris'', paris_entry)], [JNum (PFloat 10), JNum (PFloat 10)]), s1)"
    using paris_twice_loop [OF n, of world0]
    by (cases "cities_loop (env_of paris_net) [''Paris'', ''Paris''] ([], []) world0") simp
  have t: "those (map num_of (snd ([(KStr ''Paris'', paris_entry)],
             [JNum (PFloat 10), JNum (PFloat 10)]))) = Some [PFloat 10, PFloat 10]"
    by simp
  have c: "compute_weather_stats (python (env_of paris_net)) [PFloat 10, PFloat 10] =
      Inr \<lparr>stat_min = Some (PFloat 10), stat_max = Some (PFloat 10),
           stat_average = Some (PFloat 10)\<rparr>"
    by (simp add: env_of_def stats_10_10)
  from process_result [OF l t c, of None] show ?thesis
    by (simp add: paris_twice_result_def)
qed

theorem process_weather_for_cities_keys_witness:
  "fst (process_weather_for_cities (env_of paris_net) [''Paris'', ''Paris''] ''json'' None world0) =
     Inr paris_twice_result \<and>
   set (map fst paris_twice_result) = {KStr ''stats'', KStr ''Paris''} \<and>
   length paris_twice_result =
     1 + card (set (fetched_keys (fetched (env_of paris_net) [''Paris'', ''Paris''] world0))
               - {KStr ''stats''}) \<and>
   compute_weather_stats (python (env_of paris_net)) [PFloat 10, PFloat 10] =
     Inr \<lparr>stat_min = Some (PFloat 10), stat_max = Some (PFloat 10),
          stat_average = Some (PFloat 10)\<rparr> \<and>
   map_of paris_twice_result (KStr ''stats'') =
     Some (Summary \<lparr>stat_min = Some (PFloat 10), stat_max = Some (PFloat 10),
                    stat_average = Some (PFloat 10)\<rparr>)"
proof -
  have n: "net (env_of paris_net) = paris_net" by (simp add: env_of_def)
  have k: "fetched_keys (fetched (env_of paris_net) [''Paris'', ''Paris''] world0) =
      [KStr ''Paris'', KStr ''Paris'']"
    by (simp only: paris_twice_fetched [OF n]) (simp add: fetched_keys_def)
  have f: "those (map num_of (fetched_temperatures
             (fetched (env_of paris_net) [''Paris'', ''Paris''] world0))) =
           Some [PFloat 10, PFloat 10]"
    by (simp only: paris_twice_fetched [OF n])
       (simp add: fetched_temperatures_def paris_reading_def)
  note T = process_weather_for_cities_keys [OF paris_twice_process]
  from T have "set (map fst paris_twice_result) =
          insert (KStr ''stats'')
            (set (fetched_keys (fetched (env_of paris_net) [''Paris'', ''Paris''] world0)))"
    and c: "length paris_twice_result =
          1 + card (set (fetched_keys (fetched (env_of paris_net) [''Paris'', ''Paris''] world0))
               - {KStr ''stats''})"
    by blast+
  then have a: "set (map fst paris_twice_result) = {KStr ''stats'', KStr ''Paris''}"
    unfolding k by simp
  from T obtain ts st where
    "those (map num_of (fetched_temperatures
       (fetched (env_of paris_net) [''Paris'', ''Paris''] world0))) = Some ts"
    and "compute_weather_stats (python (env_of paris_net)) ts = Inr st"
    and "map_of paris_twice_result (KStr ''stats'') = Some (Summary st)"
    by blast
  with f have "compute_weather_stats (python (env_of paris_net)) [PFloat 10, PFloat 10] = Inr st"
    and "map_of paris_twice_result (KStr ''stats'') = Some (Summary st)"
    by simp_all
  then have b: "compute_weather_stats (python (env_of paris_net)) [PFloat 10, PFloat 10] =
     Inr \<lparr>stat_min = Some (PFloat 10), stat_max = Some (PFloat 10),
          stat_average = Some (PFloat 10)\<rparr> \<and>
   map_of paris_twice_result (KStr ''stats'') =
     Some (Summary \<lparr>stat_min = Some (PFloat 10), stat_max = Some (PFloat 10),
                    stat_average = Some (PFloat 10)\<rparr>)"
    by (simp add: paris_twice_result_def)
  from a b c paris_twice_process show ?thesis by blast
qed

text \<open>
  C2, as stated, fails: Paris listed twice is resolved and fetched twice, and the mapping
  has two keys, not three.
\<close>

theorem process_weather_for_cities_keys_counterexample:
  "fst (process_weather_for_cities (env_of paris_net) [''Paris'', ''Paris''] ''json'' None world0) =
     Inr paris_twice_result \<and>
   length paris_twice_result = 2 \<and>
   length (fetched (env_of paris_net) [''Paris'', ''Paris''] world0) = 2"
proof -
  have n: "net (env_of paris_net) = paris_net" by (simp add: env_of_def)
  show ?thesis
    by (simp only: paris_twice_process paris_twice_fetched [OF n])
       (simp add: paris_twice_result_def)
qed

lemma mixed_fetched:
  assumes "net env = paris_net"
  shows "fetched env [''Atlantis'', ''Paris''] s = [(JStr ''Paris'', paris_reading)]"
  by (simp add: unknown_lookup [OF assms] paris_lookup [OF assms])

lemma unknown_events:
  assumes "net env = paris_net" and "city \<noteq> ''Paris''"
  shows "city_events env city s =
     [Stdout [Text ''[info] Fetching data for '', Text city, Text ''...''],
      Get GEOCODE_API_URL (geocode_params city),
      Stderr [Text (''[warning] geocoding data not found for '' @ [CHR 0x27]),
              Text city, Text ([CHR 0x27] @ ''.'')],
      Stdout [Text ''[warn] Skipping '', Text city, Text '' due to geocoding issues.'']]"
  by (simp add: city_events_def unknown_lookup [OF assms])

lemma paris_events:
  assumes "net env = paris_net"
  shows "city_events env ''Paris'' s =
     [Stdout [Text ''[info] Fetching data for '', Text ''Paris'', Text ''...''],
      Get GEOCODE_API_URL (geocode_params ''Paris''),
      Get WEATHER_API_URL (weather_params (JNum (PFloat (195 / 4))) (JNum (PFloat (9 / 4))))]"
  by (simp add: city_events_def paris_lookup [OF assms])

lemma mixed_loop_log:
  assumes "net env = paris_net"
  shows "loop_log env [''Atlantis'', ''Paris''] s =
     [Stdout [Text ''[info] Fetching data for '', Text ''Atlantis'', Text ''...''],
      Get GEOCODE_API_URL (geocode_params ''Atlantis''),
      Stderr [Text (''[warning] geocoding data not found for '' @ [CHR 0x27]),
              Text ''Atlantis'', Text ([CHR 0x27] @ ''.'')],
      Stdout [Text ''[warn] Skipping '', Text ''Atlantis'', Text '' due to geocoding issues.''],
      Stdout [Text ''[info] Fetching data for '', Text ''Paris'', Text ''...''],
      Get GEOCODE_API_URL (geocode_params ''Paris''),
      Get WEATHER_API_URL (weather_params (JNum (PFloat (195 / 4))) (JNum (PFloat (9 / 4)))),
      Sleep (1 / 2)]"
  by (simp add: unknown_events [OF assms] paris_events [OF assms] unknown_lookup [OF assms]
      paris_lookup [OF assms])

text \<open>
  C4, as the code has it. The log of the Orchestrator is, city by city in the order of
  the list, what resolving and fetching the city logs, which holds no pause of half a
  second, followed by one such pause if the city was stored and by nothing if it was
  skipped; what comes after the last city holds no such pause. So a pause follows each
  stored city, the last one included, none follows a skipped city, and the number of
  pauses is the number of the stored cities.
\<close>

theorem process_weather_for_cities_pauses:
  "(\<exists>evs. log (snd (process_weather_for_cities env cities fmt out s)) =
           log s @ loop_log env cities s @ evs \<and> Sleep (1 / 2) \<notin> set evs) \<and>
   (\<forall>city s'. Sleep (1 / 2) \<notin> set (city_events env city s')) \<and>
   pauses (log (snd (process_weather_for_cities env cities fmt out s))) =
     pauses (log s) + length (fetched_keys (fetched env cities s))"
proof -
  have "pauses (log (snd (process_weather_for_cities env cities fmt out s))) =
          pauses (log (snd (cities_loop env cities ([], []) s)))"
    by (rule process_pauses_loop)
  also have "\<dots> = pauses (log s) + length (fetched_keys (fetched env cities s))"
    by (rule cities_loop_pauses)
  finally have "pauses (log (snd (process_weather_for_cities env cities fmt out s))) =
     pauses (log s) + length (fetched_keys (fetched env cities s))" .
  moreover have "\<forall>city s'. Sleep (1 / 2) \<notin> set (city_events env city s')"
    using lookup_city_log by blast
  ultimately show ?thesis using process_log by blast
qed

theorem process_weather_for_cities_pauses_witness:
  "(\<exists>evs. log (snd (process_weather_for_cities (env_of paris_net) [''Atlantis'', ''Paris'']
                      ''json'' None world0)) =
     [Stdout [Text ''[info] Fetching data for '', Text ''Atlantis'', Text ''...''],
      Get GEOCODE_API_URL (geocode_params ''Atlantis''),
      Stderr [Text (''[warning] geocoding data not found for '' @ [CHR 0x27]),
              Text ''Atlantis'', Text ([CHR 0x27] @ ''.'')],
      Stdout [Text ''[warn] Skipping '', Text ''Atlantis'', Text '' due to geocoding issues.''],
      Stdout [Text ''[info] Fetching data for '', Text ''Paris'', Text ''...''],
      Get GEOCODE_API_URL (geocode_params ''Paris''),
      Get WEATHER_API_URL (weather_params (JNum (PFloat (195 / 4))) (JNum (PFloat (9 / 4)))),
      Sleep (1 / 2)] @ evs \<and> Sleep (1 / 2) \<notin> set evs) \<and>
   pauses (log (snd (process_weather_for_cities (env_of paris_net) [''Atlantis'', ''Paris'']
                      ''json'' None world0))) = 1"
proof -
  have n: "net (env_of paris_net) = paris_net" by (simp add: env_of_def)
  have k: "fetched_keys (fetched (env_of paris_net) [''Atlantis'', ''Paris''] world0) =
      [KStr ''Paris'']"
    by (simp only: mixed_fetched [OF n]) (simp add: fetched_keys_def)
  have z: "pauses (log world0) = 0" by (simp add: world0_def pauses_def)
  have z0: "log world0 = []" by (simp add: world0_def)
  note T = process_weather_for_cities_pauses [of "env_of paris_net" "[''Atlantis'', ''Paris'']"
        "''json''" None world0]
  from T [THEN conjunct2, THEN conjunct2]
  have "pauses (log (snd (process_weather_for_cities (env_of paris_net)
      [''Atlantis'', ''Paris''] ''json'' None world0))) = 1"
    unfolding k z by simp
  moreover from T [THEN conjunct1]
  have "\<exists>evs. log (snd (process_weather_for_cities (env_of paris_net)
      [''Atlantis'', ''Paris''] ''json'' None world0)) =
      log world0 @ loop_log (env_of paris_net) [''Atlantis'', ''Paris''] world0 @ evs \<and>
      Sleep (1 / 2) \<notin> set evs" .
  ultimately show ?thesis
    unfolding mixed_loop_log [OF n] z0 by simp
qed

text \<open>
  C4, as stated, fails: two cities that the Geocoder does not find are processed one after
  the other without any pause.
\<close>

theorem process_weather_for_cities_pauses_counterexample:
  "length [''Atlantis'', ''Lemuria''] = 2 \<and>
   pauses (log (snd (process_weather_for_cities (env_of paris_net) [''Atlantis'', ''Lemuria'']
                      ''json'' None world0))) = 0"
proof -
  have n: "net (env_of paris_net) = paris_net" by (simp add: env_of_def)
  show ?thesis
    by (simp only: process_pauses_loop cities_loop_pauses unknown_twice_fetched [OF n])
       (simp add: world0_def pauses_def fetched_keys_def)
qed

subsection \<open>The format that is not written\<close>

lemma emits_no_write: "emits no_write m \<Longrightarrow> writes (log (snd (m s))) = writes (log s)"
proof -
  have z: "list_all no_write evs \<Longrightarrow> writes evs = []" for evs
    by (induction evs) (auto simp: writes_def no_write_def is_write_def split: event.splits)
  assume "emits no_write m"
  then obtain evs where "log (snd (m s)) = log s @ evs" "list_all no_write evs"
    unfolding emits_def by blast
  then show ?thesis by (simp add: writes_append z)
qed

lemma emits_record_city: "emits no_write (record_city city_name weather acc)"
  unfolding record_city_def Let_def
  by (auto intro!: emits_andthen emits_lift emits_sleep emits_ret simp: no_write_def is_write_def)

lemma emits_cities_loop: "emits no_write (cities_loop env cities acc)"
proof (induction cities arbitrary: acc)
  case Nil
  show ?case by (simp add: emits_ret)
next
  case (Cons city rest)
  have q: "emits no_write (lookup_city env city)"
    by (rule emits_mono [OF emits_lookup_city]) (simp add: quiet_def no_write_def)
  show ?case
    by (auto intro!: emits_andthen q emits_record_city Cons split: option.splits)
qed

lemma process_unsaved_writes:
  assumes "fmt \<noteq> ''json''"
  shows "(\<exists>e. fst (process_weather_for_cities env cities fmt out s) = Inl e) \<and>
         writes (log (snd (process_weather_for_cities env cities fmt out s))) = writes (log s)"
proof -
  obtain q s1 where l: "cities_loop env cities ([], []) s = (q, s1)"
    by (cases "cities_loop env cities ([], []) s")
  have w: "writes (log s1) = writes (log s)"
    using emits_no_write [OF emits_cities_loop, of env cities "([], [])" s] l by simp
  have "\<exists>e. process_weather_for_cities env cities fmt out s = (Inl e, s1)"
  proof (cases q)
    case (Inl e)
    with l show ?thesis by (simp add: process_weather_for_cities_def andthen_def)
  next
    case (Inr acc)
    show ?thesis
    proof (cases "those (map num_of (snd acc))")
      case None
      with l Inr show ?thesis
        by (simp add: process_weather_for_cities_def andthen_def call_compute_weather_stats_def
            raise_def)
    next
      case (Some ts)
      show ?thesis
      proof (cases "compute_weather_stats (python env) ts")
        case (Inl e)
        with l \<open>q = Inr acc\<close> Some show ?thesis
          by (simp add: process_weather_for_cities_def andthen_def
              call_compute_weather_stats_def lift_def)
      next
        case c: (Inr st)
        from process_unsaved [OF l [unfolded \<open>q = Inr acc\<close>] Some c assms]
        show ?thesis by blast
      qed
    qed
  qed
  with w show ?thesis by auto
qed

lemma paris_once_loop:
  assumes "net env = paris_net"
  shows "fst (cities_loop env [''Paris''] ([], []) s) =
           Inr ([(KStr ''Paris'', paris_entry)], [JNum (PFloat 10)])"
  by (simp add: andthen_def paris_lookup [OF assms] record_city_hashable ret_def
      paris_reading_def paris_entry_def)

lemma stats_10:
  "python env = exact_runtime \<Longrightarrow>
   compute_weather_stats (python env) [PFloat 10] =
     Inr \<lparr>stat_min = Some (PFloat 10), stat_max = Some (PFloat 10),
          stat_average = Some (PFloat 10)\<rparr>"
  by (simp add: compute_weather_stats_def exact_runtime_def exact_sum_def within_doubles)

lemma paris_once_csv:
  assumes "net env = paris_net" and "python env = exact_runtime"
  shows "fst (process_weather_for_cities env [''Paris''] ''csv'' out s) =
           Inl (NameError ''save_to_csv'')"
proof -
  obtain s1 where l: "cities_loop env [''Paris''] ([], []) s =
      (Inr ([(KStr ''Paris'', paris_entry)], [JNum (PFloat 10)]), s1)"
    using paris_once_loop [OF assms(1), of s]
    by (cases "cities_loop env [''Paris''] ([], []) s") simp
  have t: "those (map num_of (snd ([(KStr ''Paris'', paris_entry)], [JNum (PFloat 10)]))) =
      Some [PFloat 10]"
    by simp
  from process_unsaved [OF l t stats_10 [OF assms(2)], of "''csv''" out] show ?thesis by simp
qed

lemma paris_once_json:
  assumes "net env = paris_net" and "python env = exact_runtime"
  shows "\<exists>r. fst (process_weather_for_cities env [''Paris''] ''json'' out s) = Inr r"
proof -
  obtain s1 where l: "cities_loop env [''Paris''] ([], []) s =
      (Inr ([(KStr ''Paris'', paris_entry)], [JNum (PFloat 10)]), s1)"
    using paris_once_loop [OF assms(1), of s]
    by (cases "cities_loop env [''Paris''] ([], []) s") simp
  have t: "those (map num_of (snd ([(KStr ''Paris'', paris_entry)], [JNum (PFloat 10)]))) =
      Some [PFloat 10]"
    by simp
  from process_result [OF l t stats_10 [OF assms(2)], of out] show ?thesis by blast
qed

section \<open>Properties of the Entry Point\<close>

lemma strip_Paris: "strip ''Paris'' = ''Paris''"
  by (simp add: strip_def is_space_def whitespace_def utf8_len_def)

lemma strip_blank: "strip ''  '' = []" "strip [CHR 0xC2, CHR 0xA0] = []"
  by (simp_all add: strip_def is_space_def whitespace_def utf8_len_def)

lemma main_read_fails:
  assumes "\<forall>ls. read_file env (args_file a) \<noteq> Lines ls"
  shows "fst (main env a s) = 2 \<and> writes (log (snd (main env a s))) = writes (log s)"
  using assms
  by (cases "read_file env (args_file a)")
     (simp_all add: main_def read_city_names_from_file_def prog_defs writes_append writes_def)

lemma main_no_cities:
  assumes "read_file env (args_file a) = Lines ls"
    and "map strip (filter (\<lambda>line. strip line \<noteq> []) ls) = []"
  shows "fst (main env a s) = 3 \<and> writes (log (snd (main env a s))) = writes (log s)"
  using assms
  by (simp add: main_def read_city_names_from_file_def prog_defs writes_def Let_def)

lemma main_runs:
  assumes "read_file env (args_file a) = Lines ls"
    and "map strip (filter (\<lambda>line. strip line \<noteq> []) ls) \<noteq> []"
  shows "fst (main env a s) =
     (case fst (process_weather_for_cities env (map strip (filter (\<lambda>line. strip line \<noteq> []) ls))
                  (args_format a) (args_out a) s) of
        Inl e \<Rightarrow> 1 | Inr r \<Rightarrow> 0)"
  using assms
  by (simp add: main_def read_city_names_from_file_def prog_defs Let_def
      split: prod.splits sum.splits)

lemma main_arithmetic_raises:
  assumes "read_file env (args_file a) = Lines ls"
    and "map strip (filter (\<lambda>line. strip line \<noteq> []) ls) \<noteq> []"
    and "cities_loop env (map strip (filter (\<lambda>line. strip line \<noteq> []) ls)) ([], []) s =
           (Inr acc, s1)"
    and "those (map num_of (snd acc)) = Some ts"
    and "compute_weather_stats (python env) ts = Inl e"
  shows "fst (main env a s) = 1"
proof -
  from assms(3-5)
  have "fst (process_weather_for_cities env (map strip (filter (\<lambda>line. strip line \<noteq> []) ls))
          (args_format a) (args_out a) s) = Inl e"
    by (simp add: process_weather_for_cities_def andthen_def call_compute_weather_stats_def
        lift_def)
  with main_runs [OF assms(1) assms(2), of s] show ?thesis by simp
qed

lemma huge_stats:
  "compute_weather_stats exact_runtime [PInt (10 ^ 400)] = Inl OverflowError"
  by (simp add: compute_weather_stats_def exact_runtime_def exact_sum_def beyond_doubles_def)

lemma huge_geocode:
  assumes "net env = huge_net"
  shows "get_city_coordinates env ''Paris'' s =
     (Inr (Some (JNum (PFloat (195 / 4)), JNum (PFloat (9 / 4)), JStr ''Paris'')),
      s\<lparr>served := Suc (served s), log := log s @ [Get GEOCODE_API_URL (geocode_params ''Paris'')]\<rparr>)"
proof -
  have f: "fetch_data_with_retries env GEOCODE_API_URL (geocode_params ''Paris'')
     RETRY_ATTEMPTS s =
     (Inr (JObj [(''results'', JArr [JObj paris_info])]),
      s\<lparr>served := Suc (served s), log := log s @ [Get GEOCODE_API_URL (geocode_params ''Paris'')]\<rparr>)"
    by (rule fetch3_first_ok) (simp add: assms huge_net_def)
  have r: "dict_get [(''results'', JArr [JObj paris_info])] ''results'' = JArr (JObj paris_info # [])"
    by (simp add: dict_get_def)
  have l: "dict_get paris_info ''latitude'' = JNum (PFloat (195 / 4))"
    "dict_get paris_info ''longitude'' = JNum (PFloat (9 / 4))"
    "dict_get paris_info ''name'' = JStr ''Paris''"
    by (simp_all add: dict_get_def paris_info_def)
  from geocode_Some [OF f r] l show ?thesis by simp
qed

lemma huge_weather_lookup:
  assumes "net env = huge_net"
  shows "get_current_weather_for_coordinates env lat lon s =
     (Inr (Some huge_reading),
      s\<lparr>served := Suc (served s), log := log s @ [Get WEATHER_API_URL (weather_params lat lon)]\<rparr>)"
proof -
  have f: "fetch_data_with_retries env WEATHER_API_URL (weather_params lat lon)
     RETRY_ATTEMPTS s =
     (Inr (JObj [(''current_weather'', JObj huge_weather)]),
      s\<lparr>served := Suc (served s), log := log s @ [Get WEATHER_API_URL (weather_params lat lon)]\<rparr>)"
    by (rule fetch3_first_ok) (simp add: assms huge_net_def urls_differ)
  show ?thesis
    by (simp add: get_current_weather_for_coordinates_def andthen_def f)
       (simp add: prog_defs dict_get_def huge_weather_def huge_reading_def)
qed

lemma huge_loop:
  assumes "net env = huge_net"
  shows "fst (cities_loop env [''Paris''] ([], []) s) =
           Inr ([(KStr ''Paris'',
                  City \<lparr>entry_temperature = JNum (PInt (10 ^ 400)), entry_windspeed = JNull,
                        entry_winddirection = JNull, entry_timestamp = JNull\<rparr>)],
                [JNum (PInt (10 ^ 400))])"
  by (simp add: andthen_def lookup_city_def py_print_def emit_def huge_geocode [OF assms]
      huge_weather_lookup [OF assms] record_city_hashable ret_def huge_reading_def)

lemma process_arithmetic_raises:
  assumes "fst (cities_loop env cities ([], []) s) = Inr acc"
    and "those (map num_of (snd acc)) = Some ts"
    and "compute_weather_stats (python env) ts = Inl e"
  shows "fst (process_weather_for_cities env cities fmt out s) = Inl e"
proof -
  obtain s1 where "cities_loop env cities ([], []) s = (Inr acc, s1)"
    using assms(1) by (cases "cities_loop env cities ([], []) s") simp
  with assms(2,3) show ?thesis
    by (simp add: process_weather_for_cities_def andthen_def call_compute_weather_stats_def
        lift_def)
qed

lemma huge_process:
  "fst (process_weather_for_cities huge_env [''Paris''] fmt out s) = Inl OverflowError"
proof -
  have n: "net huge_env = huge_net" by (simp add: huge_env_def)
  have y: "python huge_env = exact_runtime" by (simp add: huge_env_def)
  have t: "those (map num_of (snd ([(KStr ''Paris'',
                  City \<lparr>entry_temperature = JNum (PInt (10 ^ 400)), entry_windspeed = JNull,
                        entry_winddirection = JNull, entry_timestamp = JNull\<rparr>)],
                [JNum (PInt (10 ^ 400))]))) = Some [PInt (10 ^ 400)]"
    by simp
  have c: "compute_weather_stats (python huge_env) [PInt (10 ^ 400)] = Inl OverflowError"
    unfolding y by (rule huge_stats)
  from process_arithmetic_raises [OF huge_loop [OF n] t c] show ?thesis .
qed

text \<open>
  C1. With the format \<^verbatim>\<open>csv\<close> nothing is written: the call of the undefined name
  \<^verbatim>\<open>save_to_csv\<close> raises \<^verbatim>\<open>NameError\<close> after the cities were fetched, no output file is
  written, and \<open>main\<close> exits with code 1. Evaluated for the single city Paris.
\<close>

theorem process_csv_raises_NameError:
  "fst (process_weather_for_cities (env_of paris_net) [''Paris''] ''csv'' None world0) =
     Inl (NameError ''save_to_csv'') \<and>
   writes (log (snd (process_weather_for_cities (env_of paris_net) [''Paris''] ''csv'' None
                       world0))) = [] \<and>
   fst (main (file_env (Lines [''Paris''])) csv_args world0) = 1"
proof -
  have n: "net (env_of paris_net) = paris_net" "net (file_env (Lines [''Paris''])) = paris_net"
    by (simp_all add: env_of_def file_env_def)
  have y: "python (env_of paris_net) = exact_runtime"
    "python (file_env (Lines [''Paris''])) = exact_runtime"
    by (simp_all add: env_of_def file_env_def)
  have w: "writes (log world0) = []" by (simp add: world0_def writes_def)
  have c: "''csv'' \<noteq> ''json''" by simp
  have r: "read_file (file_env (Lines [''Paris''])) (args_file csv_args) = Lines [''Paris'']"
    by (simp add: file_env_def)
  have u: "map strip (filter (\<lambda>line. strip line \<noteq> []) [''Paris'']) = [''Paris'']"
    by (simp add: strip_Paris)
  have m: "fst (main (file_env (Lines [''Paris''])) csv_args world0) = 1"
    unfolding main_runs [OF r, unfolded u, simplified]
    by (simp add: csv_args_def paris_once_csv [OF n(2) y(2)])
  from paris_once_csv [OF n(1) y(1)] process_unsaved_writes [OF c] w m show ?thesis
    by simp
qed

text \<open>
  C6. \<open>main\<close> exits with 2 when the input file cannot be read, with 3 when it is read
  and has no line that is not blank, with 1 when the pipeline raises, and with 0
  otherwise; in the first two cases no output file is written. The runs evaluated are a
  missing file, a file of a line of spaces and a line holding a no-break space, the
  unwritten format, a temperature whose average overflows, and a good run.
\<close>

theorem main_exit_codes:
  "((\<forall>ls. read_file env (args_file a) \<noteq> Lines ls) \<longrightarrow>
      fst (main env a s) = 2 \<and> writes (log (snd (main env a s))) = writes (log s)) \<and>
   (\<forall>ls. read_file env (args_file a) = Lines ls \<longrightarrow>
      (map strip (filter (\<lambda>line. strip line \<noteq> []) ls) = [] \<longrightarrow>
         fst (main env a s) = 3 \<and> writes (log (snd (main env a s))) = writes (log s)) \<and>
      (map strip (filter (\<lambda>line. strip line \<noteq> []) ls) \<noteq> [] \<longrightarrow>
         ((\<exists>e. fst (process_weather_for_cities env
                      (map strip (filter (\<lambda>line. strip line \<noteq> []) ls))
                      (args_format a) (args_out a) s) = Inl e) \<longrightarrow>
            fst (main env a s) = 1) \<and>
         ((\<exists>r. fst (process_weather_for_cities env
                      (map strip (filter (\<lambda>line. strip line \<noteq> []) ls))
                      (args_format a) (args_out a) s) = Inr r) \<longrightarrow>
            fst (main env a s) = 0)))"
proof (intro conjI allI impI, goal_cases)
  case 1
  then show ?case using main_read_fails by blast
next
  case 2
  then show ?case using main_read_fails by blast
next
  case (3 ls)
  then show ?case using main_no_cities by blast
next
  case (4 ls)
  then show ?case using main_no_cities by blast
next
  case (5 ls)
  then obtain e where "fst (process_weather_for_cities env
                      (map strip (filter (\<lambda>line. strip line \<noteq> []) ls))
                      (args_format a) (args_out a) s) = Inl e" by blast
  with main_runs [OF 5(1) 5(2), of s] show ?case by simp
next
  case (6 ls)
  then obtain r where "fst (process_weather_for_cities env
                      (map strip (filter (\<lambda>line. strip line \<noteq> []) ls))
                      (args_format a) (args_out a) s) = Inr r" by blast
  with main_runs [OF 6(1) 6(2), of s] show ?case by simp
qed

theorem main_exit_codes_witness:
  "fst (main (file_env Missing) json_args world0) = 2 \<and>
   writes (log (snd (main (file_env Missing) json_args world0))) = [] \<and>
   fst (main (file_env (Lines [''  '', [CHR 0xC2, CHR 0xA0]])) json_args world0) = 3 \<and>
   writes (log (snd (main (file_env (Lines [''  '', [CHR 0xC2, CHR 0xA0]])) json_args world0))) = [] \<and>
   fst (main (file_env (Lines [''Paris''])) csv_args world0) = 1 \<and>
   fst (main huge_env json_args world0) = 1 \<and>
   fst (main (file_env (Lines [''Paris''])) json_args world0) = 0"
proof -
  have w: "writes (log world0) = []" by (simp add: world0_def writes_def)
  have n: "net (file_env (Lines [''Paris''])) = paris_net" by (simp add: file_env_def)
  have r4: "read_file huge_env (args_file json_args) = Lines [''Paris'']"
    by (simp add: huge_env_def)
  have p4: "\<exists>e. fst (process_weather_for_cities huge_env [''Paris'']
                      (args_format json_args) (args_out json_args) world0) = Inl e"
    using huge_process by blast
  have y: "python (file_env (Lines [''Paris''])) = exact_runtime" by (simp add: file_env_def)
  have r1: "\<forall>ls. read_file (file_env Missing) (args_file json_args) \<noteq> Lines ls"
    by (simp add: file_env_def)
  have r2: "read_file (file_env (Lines [''  '', [CHR 0xC2, CHR 0xA0]])) (args_file json_args) = Lines [''  '', [CHR 0xC2, CHR 0xA0]]"
    by (simp add: file_env_def)
  have u2: "map strip (filter (\<lambda>line. strip line \<noteq> []) [''  '', [CHR 0xC2, CHR 0xA0]]) = []"
    by (simp add: strip_blank)
  have r3: "read_file (file_env (Lines [''Paris''])) (args_file csv_args) = Lines [''Paris'']"
    "read_file (file_env (Lines [''Paris''])) (args_file json_args) = Lines [''Paris'']"
    by (simp_all add: file_env_def)
  have u3: "map strip (filter (\<lambda>line. strip line \<noteq> []) [''Paris'']) = [''Paris'']"
    by (simp add: strip_Paris)
  have ne: "[''Paris''] \<noteq> []" by simp
  have p1: "\<exists>e. fst (process_weather_for_cities (file_env (Lines [''Paris''])) [''Paris'']
                      (args_format csv_args) (args_out csv_args) world0) = Inl e"
    using paris_once_csv [OF n y, of None world0] by (simp add: csv_args_def)
  have p0: "\<exists>r. fst (process_weather_for_cities (file_env (Lines [''Paris''])) [''Paris'']
                      (args_format json_args) (args_out json_args) world0) = Inr r"
    using paris_once_json [OF n y, of None world0] by (simp add: json_args_def)
  from main_exit_codes [of "file_env Missing" json_args world0] r1
  have a: "fst (main (file_env Missing) json_args world0) = 2 \<and>
     writes (log (snd (main (file_env Missing) json_args world0))) = writes (log world0)"
    by blast
  from main_exit_codes [of "file_env (Lines [''  '', [CHR 0xC2, CHR 0xA0]])" json_args world0] r2 u2
  have b: "fst (main (file_env (Lines [''  '', [CHR 0xC2, CHR 0xA0]])) json_args world0) = 3 \<and>
     writes (log (snd (main (file_env (Lines [''  '', [CHR 0xC2, CHR 0xA0]])) json_args world0))) = writes (log world0)"
    by blast
  from main_exit_codes [of "file_env (Lines [''Paris''])" csv_args world0] r3(1) u3 ne p1
  have c: "fst (main (file_env (Lines [''Paris''])) csv_args world0) = 1"
    by (metis (no_types, lifting))
  from main_exit_codes [of "file_env (Lines [''Paris''])" json_args world0] r3(2) u3 ne p0
  have d: "fst (main (file_env (Lines [''Paris''])) json_args world0) = 0"
    by (metis (no_types, lifting))
  from main_exit_codes [of huge_env json_args world0] r4 u3 ne p4
  have e: "fst (main huge_env json_args world0) = 1"
    by (metis (no_types, lifting))
  from a b c d e w show ?thesis by simp
qed

section \<open>Properties of the Summary Printer\<close>

lemma andthen_unit: "fst (m s) = Inr () \<Longrightarrow> andthen m f s = f () (snd (m s))"
  by (cases "m s") (simp add: andthen_def)

lemma print_weather_summary_log:
  assumes "map_of data (KStr ''stats'') = Some (Summary st)"
  shows "log (snd (print_weather_summary data s)) =
     log (snd (print_cities data (snd (py_print [Text (CHR 0x0A # ''--- Weather Summary ---'')] s)))) @
     [Stdout [Text (CHR 0x0A # ''Statistics:'')],
      Stdout [Text ''  Max Temp: '', Shown (opt_num (stat_max st)), Text degC],
      Stdout [Text ''  Min Temp: '', Shown (opt_num (stat_min st)), Text degC],
      Stdout (avg_line (opt_num (stat_average st))),
      Stdout [Text (''------------------------'' @ [CHR 0x0A])]]"
proof -
  from assms have ne: "data \<noteq> []" by auto
  have pc: "fst (print_cities data t) = Inr ()" for t
    by (rule returns_unit [OF returns_print_cities])
  have pp: "fst (py_print ps t) = Inr ()" for ps t
    by (rule returns_unit [OF returns_py_print])
  let ?s0 = "snd (py_print [Text (CHR 0x0A # ''--- Weather Summary ---'')] s)"
  let ?s1 = "snd (print_cities data ?s0)"
  let ?s2 = "snd (py_print [Text (CHR 0x0A # ''Statistics:'')] ?s1)"
  let ?s3 = "snd (py_print [Text ''  Max Temp: '',
                            Shown (dict_get (entry_dict (Summary st)) ''max''), Text degC] ?s2)"
  let ?s4 = "snd (py_print [Text ''  Min Temp: '',
                            Shown (dict_get (entry_dict (Summary st)) ''min''), Text degC] ?s3)"
  let ?s5 = "snd (py_print (avg_line (dict_get (entry_dict (Summary st)) ''average'')) ?s4)"
  have "print_weather_summary data s =
          py_print [Text (''------------------------'' @ [CHR 0x0A])] ?s5"
    unfolding print_weather_summary_def
    by (simp add: ne assms andthen_unit pc pp)
  then show ?thesis
    by (simp add: py_print_def emit_def dict_get_def)
qed

text \<open>
  C9. On a mapping with a statistics summary the printer ends with the statistics block,
  whose average line shows the average under \<^verbatim>\<open>:.2f\<close> when it is present and not
  zero, and \<^verbatim>\<open>n/a\<close> when it is absent or zero (the float 0.0, or the integer 0).
\<close>

theorem print_weather_summary_average:
  "map_of data (KStr ''stats'') = Some (Summary st) \<Longrightarrow>
   (\<forall>a. stat_average st = Some a \<and> a \<noteq> PFloat 0 \<and> a \<noteq> PInt 0 \<longrightarrow>
      log (snd (print_weather_summary data s)) =
        log (snd (print_cities data
               (snd (py_print [Text (CHR 0x0A # ''--- Weather Summary ---'')] s)))) @
        [Stdout [Text (CHR 0x0A # ''Statistics:'')],
         Stdout [Text ''  Max Temp: '', Shown (opt_num (stat_max st)), Text degC],
         Stdout [Text ''  Min Temp: '', Shown (opt_num (stat_min st)), Text degC],
         Stdout [Text ''  Avg Temp: '', Fixed2 (JNum a), Text degC],
         Stdout [Text (''------------------------'' @ [CHR 0x0A])]]) \<and>
   (stat_average st = None \<or> stat_average st = Some (PFloat 0) \<or>
    stat_average st = Some (PInt 0) \<longrightarrow>
      log (snd (print_weather_summary data s)) =
        log (snd (print_cities data
               (snd (py_print [Text (CHR 0x0A # ''--- Weather Summary ---'')] s)))) @
        [Stdout [Text (CHR 0x0A # ''Statistics:'')],
         Stdout [Text ''  Max Temp: '', Shown (opt_num (stat_max st)), Text degC],
         Stdout [Text ''  Min Temp: '', Shown (opt_num (stat_min st)), Text degC],
         Stdout [Text ''  Avg Temp: n/a''],
         Stdout [Text (''------------------------'' @ [CHR 0x0A])]])"
proof -
  assume m: "map_of data (KStr ''stats'') = Some (Summary st)"
  have nz: "nonzero a \<longleftrightarrow> a \<noteq> PFloat 0 \<and> a \<noteq> PInt 0" for a
    by (cases a) simp_all
  have a: "stat_average st = Some a \<Longrightarrow> a \<noteq> PFloat 0 \<Longrightarrow> a \<noteq> PInt 0 \<Longrightarrow>
      avg_line (opt_num (stat_average st)) = [Text ''  Avg Temp: '', Fixed2 (JNum a), Text degC]"
    for a by (simp add: avg_line_def opt_num_def nz)
  have b: "stat_average st = None \<or> stat_average st = Some (PFloat 0) \<or>
      stat_average st = Some (PInt 0) \<Longrightarrow>
      avg_line (opt_num (stat_average st)) = [Text ''  Avg Temp: n/a'']"
    by (auto simp: avg_line_def opt_num_def)
  show ?thesis
    unfolding print_weather_summary_log [OF m] using a b by auto
qed

theorem print_weather_summary_average_witness:
  "map_of paris_twice_result (KStr ''stats'') =
     Some (Summary \<lparr>stat_min = Some (PFloat 10), stat_max = Some (PFloat 10), stat_average = Some (PFloat 10)\<rparr>) \<and>
   log (snd (print_weather_summary paris_twice_result world0)) =
     [Stdout [Text (CHR 0x0A # ''--- Weather Summary ---'')],
      Stdout [Padded20 (KStr ''Paris''), Text ''  Temp: '', Shown (JNum (PFloat 10)),
              Text (degC @ ''  Wind Speed: ''), Shown (JNum (PFloat 12)), Text '' km/h  Time: '',
              Shown (JStr ''2024-01-01T12:00'')],
      Stdout [Text (CHR 0x0A # ''Statistics:'')],
      Stdout [Text ''  Max Temp: '', Shown (JNum (PFloat 10)), Text degC],
      Stdout [Text ''  Min Temp: '', Shown (JNum (PFloat 10)), Text degC],
      Stdout [Text ''  Avg Temp: '', Fixed2 (JNum (PFloat 10)), Text degC],
      Stdout [Text (''------------------------'' @ [CHR 0x0A])]] \<and>
   map_of zero_result (KStr ''stats'') =
     Some (Summary \<lparr>stat_min = Some (PFloat 0), stat_max = Some (PFloat 0), stat_average = Some (PFloat 0)\<rparr>) \<and>
   log (snd (print_weather_summary zero_result world0)) =
     [Stdout [Text (CHR 0x0A # ''--- Weather Summary ---'')],
      Stdout [Padded20 (KStr ''Oslo''), Text ''  Temp: '', Shown (JNum (PFloat 0)),
              Text (degC @ ''  Wind Speed: ''), Shown (JNum (PFloat 5)), Text '' km/h  Time: '',
              Shown (JStr ''2024-01-01T12:00'')],
      Stdout [Text (CHR 0x0A # ''Statistics:'')],
      Stdout [Text ''  Max Temp: '', Shown (JNum (PFloat 0)), Text degC],
      Stdout [Text ''  Min Temp: '', Shown (JNum (PFloat 0)), Text degC],
      Stdout [Text ''  Avg Temp: n/a''],
      Stdout [Text (''------------------------'' @ [CHR 0x0A])]]"
proof -
  have m1: "map_of paris_twice_result (KStr ''stats'') =
     Some (Summary \<lparr>stat_min = Some (PFloat 10), stat_max = Some (PFloat 10), stat_average = Some (PFloat 10)\<rparr>)"
    by (simp add: paris_twice_result_def)
  have m2: "map_of zero_result (KStr ''stats'') =
     Some (Summary \<lparr>stat_min = Some (PFloat 0), stat_max = Some (PFloat 0), stat_average = Some (PFloat 0)\<rparr>)"
    by (simp add: zero_result_def)
  have c1: "log (snd (print_cities paris_twice_result
               (snd (py_print [Text (CHR 0x0A # ''--- Weather Summary ---'')] world0)))) =
     [Stdout [Text (CHR 0x0A # ''--- Weather Summary ---'')],
      Stdout [Padded20 (KStr ''Paris''), Text ''  Temp: '', Shown (JNum (PFloat 10)),
              Text (degC @ ''  Wind Speed: ''), Shown (JNum (PFloat 12)), Text '' km/h  Time: '',
              Shown (JStr ''2024-01-01T12:00'')]]"
    by (simp add: paris_twice_result_def paris_entry_def prog_defs world0_def dict_get_def)
  have c2: "log (snd (print_cities zero_result
               (snd (py_print [Text (CHR 0x0A # ''--- Weather Summary ---'')] world0)))) =
     [Stdout [Text (CHR 0x0A # ''--- Weather Summary ---'')],
      Stdout [Padded20 (KStr ''Oslo''), Text ''  Temp: '', Shown (JNum (PFloat 0)),
              Text (degC @ ''  Wind Speed: ''), Shown (JNum (PFloat 5)), Text '' km/h  Time: '',
              Shown (JStr ''2024-01-01T12:00'')]]"
    by (simp add: zero_result_def prog_defs world0_def dict_get_def)
  from print_weather_summary_average [OF m1, of world0]
  have a: "log (snd (print_weather_summary paris_twice_result world0)) =
     [Stdout [Text (CHR 0x0A # ''--- Weather Summary ---'')],
      Stdout [Padded20 (KStr ''Paris''), Text ''  Temp: '', Shown (JNum (PFloat 10)),
              Text (degC @ ''  Wind Speed: ''), Shown (JNum (PFloat 12)), Text '' km/h  Time: '',
              Shown (JStr ''2024-01-01T12:00'')],
      Stdout [Text (CHR 0x0A # ''Statistics:'')],
      Stdout [Text ''  Max Temp: '', Shown (JNum (PFloat 10)), Text degC],
      Stdout [Text ''  Min Temp: '', Shown (JNum (PFloat 10)), Text degC],
      Stdout [Text ''  Avg Temp: '', Fixed2 (JNum (PFloat 10)), Text degC],
      Stdout [Text (''------------------------'' @ [CHR 0x0A])]]"
    unfolding c1 by (simp add: opt_num_def)
  from print_weather_summary_average [OF m2, of world0]
  have b: "log (snd (print_weather_summary zero_result world0)) =
     [Stdout [Text (CHR 0x0A # ''--- Weather Summary ---'')],
      Stdout [Padded20 (KStr ''Oslo''), Text ''  Temp: '', Shown (JNum (PFloat 0)),
              Text (degC @ ''  Wind Speed: ''), Shown (JNum (PFloat 5)), Text '' km/h  Time: '',
              Shown (JStr ''2024-01-01T12:00'')],
      Stdout [Text (CHR 0x0A # ''Statistics:'')],
      Stdout [Text ''  Max Temp: '', Shown (JNum (PFloat 0)), Text degC],
      Stdout [Text ''  Min Temp: '', Shown (JNum (PFloat 0)), Text degC],
      Stdout [Text ''  Avg Temp: n/a''],
      Stdout [Text (''------------------------'' @ [CHR 0x0A])]]"
    unfolding c2 by (simp add: opt_num_def)
  from m1 m2 a b show ?thesis by blast
qed

end
